theory Spec2Isabelle
  imports Main
begin

section \<open>Python values used by the application\<close>

text \<open>
  The application is a set of request handlers in \<^verbatim>\<open>src/app.py\<close>. Python's \<^verbatim>\<open>int\<close> is
  unbounded and is modelled by \<^typ>\<open>int\<close>; a \<^verbatim>\<open>str\<close> is modelled by \<^typ>\<open>string\<close> and the
  model covers ASCII text only. The interpreter is CPython 3.11 with its default settings, on
  a C library that follows glibc; the database is SQLite, reached through the module
  \<^verbatim>\<open>sqlite3\<close>. Every exception the handlers can meet is a value of \<open>error\<close>; a computation
  that may raise returns \<open>error + 'a\<close> with \<open>Inl\<close> the exception.
\<close>

datatype error = ValueError | OverflowError | ZeroDivisionError | IntegrityError | KeyError
  | TypeError | OperationalError

definition bindE :: "error + 'a \<Rightarrow> ('a \<Rightarrow> error + 'b) \<Rightarrow> error + 'b" where
  "bindE m f = (case m of Inl e \<Rightarrow> Inl e | Inr x \<Rightarrow> f x)"

subsection \<open>Characters and \<^verbatim>\<open>str\<close> methods\<close>

text \<open>\<^verbatim>\<open>str.strip()\<close> removes the characters for which \<^verbatim>\<open>str.isspace()\<close> holds: among the
  ASCII characters these are TAB, LF, VT, FF, CR, the separators 0x1C to 0x1F and the space.\<close>

definition is_space :: "char \<Rightarrow> bool" where
  "is_space c = (c \<in> set [CHR 0x09, CHR 0x0A, CHR 0x0B, CHR 0x0C, CHR 0x0D,
                            CHR 0x1C, CHR 0x1D, CHR 0x1E, CHR 0x1F, CHR 0x20])"

definition strip :: "string \<Rightarrow> string" where
  "strip s = rev (dropWhile is_space (rev (dropWhile is_space s)))"

definition upper_letters :: string where
  "upper_letters = ''ABCDEFGHIJKLMNOPQRSTUVWXYZ''"

definition lower_letters :: string where
  "lower_letters = ''abcdefghijklmnopqrstuvwxyz''"

definition lower_char :: "char \<Rightarrow> char" where
  "lower_char c = (case map_of (zip upper_letters lower_letters) c of None \<Rightarrow> c | Some l \<Rightarrow> l)"

definition lower :: "string \<Rightarrow> string" where
  "lower s = map lower_char s"

definition digit_chars :: string where
  "digit_chars = ''0123456789''"

definition is_digit :: "char \<Rightarrow> bool" where
  "is_digit c = (c \<in> set digit_chars)"

definition digit_val :: "char \<Rightarrow> nat" where
  "digit_val c = (case map_of (zip digit_chars [0, 1, 2, 3, 4, 5, 6, 7, 8, 9]) c of None \<Rightarrow> 0 | Some v \<Rightarrow> v)"

definition digit_char :: "nat \<Rightarrow> char" where
  "digit_char n = digit_chars ! n"

subsection \<open>\<^verbatim>\<open>int(s)\<close> and \<^verbatim>\<open>str(n)\<close>\<close>

text \<open>\<^verbatim>\<open>int(s)\<close> skips, at both ends of an ASCII text, the white space of the C locale: TAB,
  LF, VT, FF, CR and the space, but not the separators 0x1C to 0x1F that \<^verbatim>\<open>str.strip()\<close>
  removes. It then reads an optional sign and decimal digits; a single underscore may stand
  between two digits. A text of more than \<open>int_max_str_digits\<close> digits is refused: CPython
  limits the conversions between \<^verbatim>\<open>int\<close> and \<^verbatim>\<open>str\<close> to 4300 digits unless it is configured
  otherwise. Every refusal is a \<^verbatim>\<open>ValueError\<close>, here \<open>None\<close>.\<close>

definition is_c_space :: "char \<Rightarrow> bool" where
  "is_c_space c = (c \<in> set [CHR 0x09, CHR 0x0A, CHR 0x0B, CHR 0x0C, CHR 0x0D, CHR 0x20])"

definition skip_spaces :: "string \<Rightarrow> string" where
  "skip_spaces s = rev (dropWhile is_c_space (rev (dropWhile is_c_space s)))"

definition int_max_str_digits :: nat where
  "int_max_str_digits = 4300"

fun parse_digits :: "nat \<Rightarrow> string \<Rightarrow> nat option" where
  "parse_digits acc [] = Some acc"
| "parse_digits acc (c # cs) =
     (if is_digit c then parse_digits (10 * acc + digit_val c) cs
      else if c = CHR ''_'' \<and> cs \<noteq> [] \<and> is_digit (hd cs) then parse_digits acc cs
      else None)"

definition parse_unsigned :: "string \<Rightarrow> nat option" where
  "parse_unsigned s =
     (if s = [] \<or> \<not> is_digit (hd s) \<or> int_max_str_digits < length (filter is_digit s)
      then None
      else parse_digits 0 s)"

definition py_int :: "string \<Rightarrow> int option" where
  "py_int s =
     (case skip_spaces s of
        [] \<Rightarrow> None
      | c # cs \<Rightarrow>
          if c = CHR ''-'' then map_option (\<lambda>n. - int n) (parse_unsigned cs)
          else if c = CHR ''+'' then map_option int (parse_unsigned cs)
          else map_option int (parse_unsigned (c # cs)))"

function show_nat :: "nat \<Rightarrow> string" where
  "show_nat n = (if n < 10 then [digit_char n] else show_nat (n div 10) @ [digit_char (n mod 10)])"
  by pat_completeness auto
termination
  by (relation "measure id") auto

declare show_nat.simps [simp del]

text \<open>\<^verbatim>\<open>str(n)\<close>, which is also what an f-string writes for \<^verbatim>\<open>{n}\<close>: the sign and the decimal
  digits; a number of more than \<open>int_max_str_digits\<close> digits raises \<^verbatim>\<open>ValueError\<close>. The
  format specification \<^verbatim>\<open>:02d\<close> pads that text with zeros on the left up to the width 2 (a
  negative number already has two characters).\<close>

definition py_str :: "int \<Rightarrow> error + string" where
  "py_str n =
     (let digits = show_nat (nat \<bar>n\<bar>)
      in if int_max_str_digits < length digits then Inl ValueError
         else Inr ((if n < 0 then ''-'' else '''') @ digits))"

definition format_02d :: "int \<Rightarrow> error + string" where
  "format_02d n = bindE (py_str n) (\<lambda>s. Inr (replicate (2 - length s) (CHR ''0'') @ s))"

text \<open>The conversions \<^verbatim>\<open>%m\<close> and \<^verbatim>\<open>%d\<close> of \<^verbatim>\<open>strftime\<close>: two digits, with a zero on the left
  when needed.\<close>

definition zero_pad :: "nat \<Rightarrow> nat \<Rightarrow> string" where
  "zero_pad w n = replicate (w - length (show_nat n)) (CHR ''0'') @ show_nat n"

section \<open>Date and money helpers\<close>

subsection \<open>Money\<close>

text \<open>\<^verbatim>\<open>x.split(".", 1)\<close> when \<^verbatim>\<open>"." in x\<close>: the text before the first dot and the text
  after it.\<close>

definition split_dot :: "string \<Rightarrow> string \<times> string" where
  "split_dot x = (takeWhile (\<lambda>c. c \<noteq> CHR ''.'') x, tl (dropWhile (\<lambda>c. c \<noteq> CHR ''.'') x))"

definition int_or_raise :: "string \<Rightarrow> error + int" where
  "int_or_raise s = (case py_int s of None \<Rightarrow> Inl ValueError | Some v \<Rightarrow> Inr v)"

definition cents_from_money_str :: "string \<Rightarrow> error + int" where
  "cents_from_money_str x0 =
     (let x = strip x0 in
      if x = [] then Inr 0
      else
        let (dollars, cents) =
              (if CHR ''.'' \<in> set x
               then (fst (split_dot x), take 2 (snd (split_dot x) @ ''00''))
               else (x, ''00''))
        in bindE (int_or_raise dollars) (\<lambda>d.
           bindE (int_or_raise cents) (\<lambda>c. Inr (d * 100 + c))))"

definition money_from_cents :: "int \<Rightarrow> error + string" where
  "money_from_cents c0 =
     (let sign = (if c0 < 0 then ''-'' else '''');
          c = \<bar>c0\<bar>
      in bindE (py_str (c div 100)) (\<lambda>dollars.
         bindE (format_02d (c mod 100)) (\<lambda>rest.
         Inr (sign @ dollars @ ''.'' @ rest))))"

subsection \<open>Dates\<close>

text \<open>A \<^verbatim>\<open>datetime.date\<close> is a year, a month and a day of the proleptic Gregorian calendar, from
  0001-01-01 to 9999-12-31. \<open>toordinal\<close> numbers the days from 1 (0001-01-01) to
  \<open>max_ordinal\<close> (9999-12-31); \<open>fromordinal\<close> is its inverse, found here by searching for
  the year and the month. Date arithmetic goes through the ordinal, as in Python.\<close>

datatype date = Date (year: int) (month: int) (day: int)

definition is_leap :: "int \<Rightarrow> bool" where
  "is_leap y = (y mod 4 = 0 \<and> (y mod 100 \<noteq> 0 \<or> y mod 400 = 0))"

definition month_lengths :: "int list" where
  "month_lengths = [31, 28, 31, 30, 31, 30, 31, 31, 30, 31, 30, 31]"

definition days_in_month :: "int \<Rightarrow> int \<Rightarrow> int" where
  "days_in_month y m = (if m = 2 \<and> is_leap y then 29 else month_lengths ! nat (m - 1))"

definition days_before_year :: "int \<Rightarrow> int" where
  "days_before_year y = (let p = y - 1 in p * 365 + p div 4 - p div 100 + p div 400)"

definition days_before_month :: "int \<Rightarrow> int \<Rightarrow> int" where
  "days_before_month y m =
     sum_list (take (nat (m - 1)) month_lengths) + (if 2 < m \<and> is_leap y then 1 else 0)"

definition valid_date :: "date \<Rightarrow> bool" where
  "valid_date d = (1 \<le> year d \<and> year d \<le> 9999 \<and> 1 \<le> month d \<and> month d \<le> 12
                   \<and> 1 \<le> day d \<and> day d \<le> days_in_month (year d) (month d))"

definition toordinal :: "date \<Rightarrow> int" where
  "toordinal d = days_before_year (year d) + days_before_month (year d) (month d) + day d"

definition max_ordinal :: int where
  "max_ordinal = 3652059"

text \<open>The number of days before a year grows by the length of the year; the search for the
  year of an ordinal terminates for that reason.\<close>

lemma div_step:
  assumes "0 < k"
  shows "(y::int) div k = (y - 1) div k + (if y mod k = 0 then 1 else 0)"
proof -
  define q where "q = y div k"
  define r where "r = y mod k"
  have y: "y = k * q + r" by (simp add: q_def r_def)
  have r: "0 \<le> r" "r < k" using assms by (simp_all add: r_def)
  show ?thesis
  proof (cases "r = 0")
    case True
    have "y - 1 = k * (q - 1) + (k - 1)" by (simp add: y True right_diff_distrib)
    then have "(y - 1) div k = q - 1"
      using assms int_div_pos_eq [of "y - 1" k "q - 1" "k - 1"] by simp
    with True show ?thesis by (simp add: q_def [symmetric] r_def [symmetric])
  next
    case False
    have "y - 1 = k * q + (r - 1)" by (simp add: y)
    moreover have "0 \<le> r - 1" "r - 1 < k" using r False by linarith+
    ultimately have "(y - 1) div k = q"
      using int_div_pos_eq [of "y - 1" k q "r - 1"] by simp
    with False show ?thesis by (simp add: q_def [symmetric] r_def [symmetric])
  qed
qed

lemma dvd_chain_mod:
  fixes y a b :: int
  assumes "a dvd b" "y mod b = 0"
  shows "y mod a = 0"
proof -
  from assms(2) have "b dvd y" by (rule iffD1 [OF mod_eq_0_iff_dvd])
  with assms(1) have "a dvd y" by (rule dvd_trans)
  then show ?thesis by (rule iffD2 [OF mod_eq_0_iff_dvd])
qed

lemma mod_4_100: "(y::int) mod 100 = 0 \<Longrightarrow> y mod 4 = 0"
  by (rule dvd_chain_mod [of 4 100]) simp_all

lemma mod_100_400: "(y::int) mod 400 = 0 \<Longrightarrow> y mod 100 = 0"
  by (rule dvd_chain_mod [of 100 400]) simp_all

lemma days_before_year_step:
  "days_before_year (y + 1) = days_before_year y + (if is_leap y then 366 else 365)"
proof -
  define e4 :: int where "e4 = (if y mod 4 = 0 then 1 else 0)"
  define e100 :: int where "e100 = (if y mod 100 = 0 then 1 else 0)"
  define e400 :: int where "e400 = (if y mod 400 = 0 then 1 else 0)"
  have d4: "y div 4 = (y - 1) div 4 + e4"
    unfolding e4_def by (rule div_step) simp
  have d100: "y div 100 = (y - 1) div 100 + e100"
    unfolding e100_def by (rule div_step) simp
  have d400: "y div 400 = (y - 1) div 400 + e400"
    unfolding e400_def by (rule div_step) simp
  have "days_before_year (y + 1) = y * 365 + y div 4 - y div 100 + y div 400"
    unfolding days_before_year_def Let_def by simp
  also have "\<dots> = y * 365 + ((y - 1) div 4 + e4) - ((y - 1) div 100 + e100)
      + ((y - 1) div 400 + e400)"
    by (simp only: d4 d100 d400)
  also have "\<dots> = days_before_year y + 365 + e4 - e100 + e400"
    unfolding days_before_year_def Let_def by (simp add: left_diff_distrib)
  finally have "days_before_year (y + 1) = days_before_year y + 365 + e4 - e100 + e400" .
  moreover have "365 + e4 - e100 + e400 = (if is_leap y then 366 else 365)"
  proof (cases "y mod 400 = 0")
    case True
    then have "y mod 100 = 0" by (rule mod_100_400)
    then have "y mod 4 = 0" by (rule mod_4_100)
    with True \<open>y mod 100 = 0\<close> show ?thesis
      by (simp add: is_leap_def e4_def e100_def e400_def)
  next
    case n400: False
    show ?thesis
    proof (cases "y mod 100 = 0")
      case True
      then have "y mod 4 = 0" by (rule mod_4_100)
      with True n400 show ?thesis
        by (simp add: is_leap_def e4_def e100_def e400_def)
    next
      case False
      with n400 show ?thesis
        by (simp add: is_leap_def e4_def e100_def e400_def)
    qed
  qed
  ultimately show ?thesis by simp
qed

lemma days_before_year_step_ge: "days_before_year y + 365 \<le> days_before_year (y + 1)"
proof (cases "is_leap y")
  case True
  with days_before_year_step [of y] have "days_before_year (y + 1) = days_before_year y + 366"
    by (simp only: if_True)
  then show ?thesis by linarith
next
  case False
  with days_before_year_step [of y] have "days_before_year (y + 1) = days_before_year y + 365"
    by (simp only: if_False)
  then show ?thesis by linarith
qed

lemma days_before_year_step_le: "days_before_year (y + 1) \<le> days_before_year y + 366"
proof (cases "is_leap y")
  case True
  with days_before_year_step [of y] have "days_before_year (y + 1) = days_before_year y + 366"
    by (simp only: if_True)
  then show ?thesis by linarith
next
  case False
  with days_before_year_step [of y] have "days_before_year (y + 1) = days_before_year y + 365"
    by (simp only: if_False)
  then show ?thesis by linarith
qed

lemma days_before_year_mono: "y \<le> y' \<Longrightarrow> days_before_year y \<le> days_before_year y'"
proof (induction y' rule: int_ge_induct)
  case base
  show ?case by simp
next
  case (step i)
  then show ?case using days_before_year_step_ge [of i] by linarith
qed

lemma days_before_year_strict: "y < y' \<Longrightarrow> days_before_year y + 365 \<le> days_before_year y'"
  using days_before_year_mono [of "y + 1" y'] days_before_year_step_ge [of y] by linarith

lemma days_before_year_upper: "1 \<le> y \<Longrightarrow> days_before_year y \<le> 366 * (y - 1)"
proof (induction y rule: int_ge_induct)
  case base
  show ?case by (simp add: days_before_year_def)
next
  case (step i)
  have "366 * (i + 1 - 1) = 366 * (i - 1) + 366" by simp
  with step show ?case using days_before_year_step_le [of i] by linarith
qed

function find_year :: "int \<Rightarrow> int \<Rightarrow> int" where
  "find_year n y = (if days_before_year (y + 1) < n then find_year n (y + 1) else y)"
  by pat_completeness auto
termination
proof (relation "measure (\<lambda>(n, y). nat (n - days_before_year (y + 1)))")
  show "wf (measure (\<lambda>(n, y). nat (n - days_before_year (y + 1))))" by simp
next
  fix n y :: int
  assume a: "days_before_year (y + 1) < n"
  have "days_before_year (y + 1) < days_before_year (y + 1 + 1)"
    using days_before_year_step_ge [of "y + 1"] by linarith
  with a have "nat (n - days_before_year (y + 1 + 1)) < nat (n - days_before_year (y + 1))"
    by linarith
  then show "((n, y + 1), (n, y)) \<in> measure (\<lambda>(n, y). nat (n - days_before_year (y + 1)))"
    by (simp only: in_measure split_conv)
qed

declare find_year.simps [simp del]

function find_month :: "int \<Rightarrow> int \<Rightarrow> int \<Rightarrow> int" where
  "find_month y r m =
     (if m < 12 \<and> days_before_month y (m + 1) < r then find_month y r (m + 1) else m)"
  by pat_completeness auto
termination
  by (relation "measure (\<lambda>(y, r, m). nat (12 - m))") auto

declare find_month.simps [simp del]

definition fromordinal :: "int \<Rightarrow> date" where
  "fromordinal n =
     (let y = find_year n ((n - 1) div 366 + 1);
          r = n - days_before_year y;
          m = find_month y r 1
      in Date y m (r - days_before_month y m))"

text \<open>The constructor \<^verbatim>\<open>date(y, m, d)\<close> and \<^verbatim>\<open>d.replace(day=k)\<close> raise \<^verbatim>\<open>ValueError\<close> for a day
  that the month does not have; \<^verbatim>\<open>d + timedelta(days=n)\<close> raises \<^verbatim>\<open>OverflowError\<close> when the
  result leaves the range of dates; \<^verbatim>\<open>(a - b).days\<close> is the difference of the ordinals, and
  dates compare as the triples (year, month, day).\<close>

definition date_new :: "int \<Rightarrow> int \<Rightarrow> int \<Rightarrow> error + date" where
  "date_new y m d = (if valid_date (Date y m d) then Inr (Date y m d) else Inl ValueError)"

definition replace_day :: "date \<Rightarrow> int \<Rightarrow> error + date" where
  "replace_day d k = date_new (year d) (month d) k"

definition add_days :: "date \<Rightarrow> int \<Rightarrow> error + date" where
  "add_days d n =
     (let ord = toordinal d + n
      in if 0 < ord \<and> ord \<le> max_ordinal then Inr (fromordinal ord) else Inl OverflowError)"

definition days_between :: "date \<Rightarrow> date \<Rightarrow> int" where
  "days_between a b = toordinal a - toordinal b"

definition date_less :: "date \<Rightarrow> date \<Rightarrow> bool" where
  "date_less a b =
     (year a < year b
      \<or> (year a = year b \<and> (month a < month b \<or> (month a = month b \<and> day a < day b))))"

text \<open>\<^verbatim>\<open>parse_ymd\<close> is \<^verbatim>\<open>datetime.strptime(s, "%Y-%m-%d").date()\<close>. The format is matched as the
  regular expression of \<^verbatim>\<open>_strptime\<close>: four digits for \<^verbatim>\<open>%Y\<close>; \<^verbatim>\<open>1[0-2]|0[1-9]|[1-9]\<close> for
  \<^verbatim>\<open>%m\<close>; \<^verbatim>\<open>3[01]|[12]\d|0[1-9]|[1-9]| [1-9]\<close> for \<^verbatim>\<open>%d\<close>; and nothing may remain after the
  day. So a month or a day of one digit is accepted. The date is then built by the
  constructor. Every failure is a \<^verbatim>\<open>ValueError\<close>.\<close>

definition is_nonzero_digit :: "char \<Rightarrow> bool" where
  "is_nonzero_digit c = (is_digit c \<and> c \<noteq> CHR ''0'')"

definition two_digits :: "char \<Rightarrow> char \<Rightarrow> int" where
  "two_digits a b = int (10 * digit_val a + digit_val b)"

fun match_month :: "string \<Rightarrow> (int \<times> string) option" where
  "match_month (a # b # c # rest) =
     (if ((a = CHR ''1'' \<and> b \<in> set ''012'') \<or> (a = CHR ''0'' \<and> is_nonzero_digit b))
         \<and> c = CHR ''-''
      then Some (two_digits a b, rest)
      else if is_nonzero_digit a \<and> b = CHR ''-'' then Some (int (digit_val a), c # rest)
      else None)"
| "match_month [a, b] =
     (if is_nonzero_digit a \<and> b = CHR ''-'' then Some (int (digit_val a), []) else None)"
| "match_month _ = None"

fun match_day :: "string \<Rightarrow> int option" where
  "match_day [a, b] =
     (if (a = CHR ''3'' \<and> b \<in> set ''01'') \<or> (a \<in> set ''12'' \<and> is_digit b)
         \<or> (a = CHR ''0'' \<and> is_nonzero_digit b)
      then Some (two_digits a b)
      else if a = CHR '' '' \<and> is_nonzero_digit b then Some (int (digit_val b))
      else None)"
| "match_day [a] = (if is_nonzero_digit a then Some (int (digit_val a)) else None)"
| "match_day _ = None"

fun parse_ymd :: "string \<Rightarrow> error + date" where
  "parse_ymd (y1 # y2 # y3 # y4 # sep # rest) =
     (if is_digit y1 \<and> is_digit y2 \<and> is_digit y3 \<and> is_digit y4 \<and> sep = CHR ''-''
      then (case match_month rest of
              None \<Rightarrow> Inl ValueError
            | Some (m, rest') \<Rightarrow>
                (case match_day rest' of
                   None \<Rightarrow> Inl ValueError
                 | Some d \<Rightarrow> date_new (100 * two_digits y1 y2 + two_digits y3 y4) m d))
      else Inl ValueError)"
| "parse_ymd _ = Inl ValueError"

text \<open>\<^verbatim>\<open>ymd\<close> is \<^verbatim>\<open>d.strftime("%Y-%m-%d")\<close>. The conversion \<^verbatim>\<open>%Y\<close> is left to the C library:
  glibc writes the year without padding (\<^verbatim>\<open>999-01-06\<close>), and the model follows it; the month
  and the day have two digits.\<close>

definition ymd :: "date \<Rightarrow> string" where
  "ymd d = show_nat (nat (year d)) @ ''-'' @ zero_pad 2 (nat (month d)) @ ''-''
           @ zero_pad 2 (nat (day d))"


section \<open>The store and the requests\<close>

text \<open>The five tables of the application, each a list of rows in insertion order. A column is
  named after its table. The row identifiers of the tables other than \<open>users\<close> are not read by
  the handlers modelled here and are left out. The declarations of the tables
  (\<^verbatim>\<open>schema.sql\<close>) are not among the sources: the unique keys that the handlers rely on are
  modelled where they are used, and no other constraint is assumed.\<close>

record user_row =
  u_id :: int
  u_email :: string
  u_password_hash :: string

record pay_schedule_row =
  ps_user_id :: int
  ps_frequency :: string
  ps_next_payday :: string
  ps_typical_net_pay_cents :: int

record transaction_row =
  t_user_id :: int
  t_kind :: string
  t_amount_cents :: int
  t_category :: string
  t_occurred_on :: string
  t_note :: string

record budget_row =
  b_user_id :: int
  b_category :: string
  b_limit_cents :: int

record recurring_bill_row =
  rb_user_id :: int
  rb_name :: string
  rb_amount_cents :: int
  rb_due_day :: int
  rb_active :: int

record db =
  users :: "user_row list"
  pay_schedules :: "pay_schedule_row list"
  transactions :: "transaction_row list"
  budgets :: "budget_row list"
  recurring_bills :: "recurring_bill_row list"

text \<open>An integer column holds a signed integer of 64 bits. \<^verbatim>\<open>db.execute\<close> raises
  \<^verbatim>\<open>OverflowError\<close> when one of the parameters of its statement is a Python \<^verbatim>\<open>int\<close> outside
  that range, and the statement is then not run.\<close>

definition sql_integer :: "int \<Rightarrow> bool" where
  "sql_integer n = (- (2 ^ 63) \<le> n \<and> n < 2 ^ 63)"

definition bind_ints :: "int list \<Rightarrow> error + unit" where
  "bind_ints params = (if list_all sql_integer params then Inr () else Inl OverflowError)"

text \<open>A request carries the session's \<^verbatim>\<open>user_id\<close> (if any) and, for a POST, the form. A handler
  returns the store after the request, the session, the messages it flashed and its
  response; a handler that raises returns the exception and the store stays as it was,
  since nothing was committed.\<close>

type_synonym form = "string \<Rightarrow> string option"

definition form_get :: "form \<Rightarrow> string \<Rightarrow> string \<Rightarrow> string" where
  "form_get f k dflt = (case f k of None \<Rightarrow> dflt | Some v \<Rightarrow> v)"

record due_item =
  di_name :: string
  di_amount :: string
  di_due :: string

record dashboard_ctx =
  ctx_period_start :: string
  ctx_period_end :: string
  ctx_next_payday :: string
  ctx_typical :: string
  ctx_income :: string
  ctx_expense :: string
  ctx_remaining :: string
  ctx_daily_limit :: string
  ctx_bills_due :: "due_item list"
  ctx_bills_total :: string
  ctx_after_bills :: string

datatype response = Redirect string | Render string | Render_dashboard dashboard_ctx

record reply =
  new_db :: db
  new_session :: "int option"
  flashed :: "string list"
  answer :: response

definition db_after :: "db \<Rightarrow> error + reply \<Rightarrow> db" where
  "db_after d r = (case r of Inl e \<Rightarrow> d | Inr rep \<Rightarrow> new_db rep)"

text \<open>\<^verbatim>\<open>require_login\<close> followed by \<^verbatim>\<open>current_user_id\<close>: a session without a \<^verbatim>\<open>user_id\<close>, or with
  the \<^verbatim>\<open>user_id\<close> 0 (which Python takes for false), is sent to the login page.\<close>

definition require_login :: "int option \<Rightarrow> bool" where
  "require_login session = (case session of None \<Rightarrow> False | Some user_id \<Rightarrow> user_id \<noteq> 0)"

definition with_login :: "db \<Rightarrow> int option \<Rightarrow> (int \<Rightarrow> error + reply) \<Rightarrow> error + reply" where
  "with_login d session body =
     (case session of
        None \<Rightarrow> Inr \<lparr>new_db = d, new_session = session, flashed = [''Please log in first.''],
                      answer = Redirect ''login''\<rparr>
      | Some user_id \<Rightarrow>
          if user_id = 0
          then Inr \<lparr>new_db = d, new_session = session, flashed = [''Please log in first.''],
                    answer = Redirect ''login''\<rparr>
          else body user_id)"

subsection \<open>Pay schedule helpers\<close>

definition get_schedule :: "db \<Rightarrow> int \<Rightarrow> error + pay_schedule_row option" where
  "get_schedule d user_id =
     bindE (bind_ints [user_id]) (\<lambda>bound.
       Inr (find (\<lambda>r. ps_user_id r = user_id) (pay_schedules d)))"

definition current_pay_period :: "pay_schedule_row \<Rightarrow> error + (date \<times> date \<times> date)" where
  "current_pay_period schedule_row =
     bindE (parse_ymd (ps_next_payday schedule_row)) (\<lambda>next_payday.
     bindE (add_days next_payday (- 1)) (\<lambda>period_end.
     bindE (add_days period_end (- 13)) (\<lambda>period_start.
     Inr (period_start, period_end, next_payday))))"

subsection \<open>Signup\<close>

text \<open>Modelled from the spec: the table declarations (\<^verbatim>\<open>schema.sql\<close>) are not among the sources.
  The spec gives \<open>User: id, email (unique), password hash\<close>: an insert with an email that a
  row already has raises \<^verbatim>\<open>IntegrityError\<close>, and the new row gets the next identifier.\<close>

definition insert_user :: "db \<Rightarrow> string \<Rightarrow> string \<Rightarrow> error + db" where
  "insert_user d email password_hash =
     (if email \<in> set (map u_email (users d)) then Inl IntegrityError
      else Inr (d\<lparr>users := users d @
                  [\<lparr>u_id = fold max (map u_id (users d)) 0 + 1, u_email = email,
                    u_password_hash = password_hash\<rparr>]\<rparr>))"

definition signup_post :: "(string \<Rightarrow> string) \<Rightarrow> db \<Rightarrow> int option \<Rightarrow> form \<Rightarrow> error + reply" where
  "signup_post generate_password_hash d session f =
     (let email = lower (strip (form_get f ''email'' ''''));
          pw = form_get f ''password'' ''''
      in if email = [] \<or> pw = []
         then Inr \<lparr>new_db = d, new_session = session,
                   flashed = [''Email and password required.''],
                   answer = Render ''auth_signup.html''\<rparr>
         else
           (case insert_user d email (generate_password_hash pw) of
              Inl e \<Rightarrow>
                if e = IntegrityError
                then Inr \<lparr>new_db = d, new_session = session,
                          flashed = [''That email is already registered.''],
                          answer = Render ''auth_signup.html''\<rparr>
                else Inl e
            | Inr d' \<Rightarrow>
                (case find (\<lambda>u. u_email u = email) (users d') of
                   None \<Rightarrow> Inl TypeError
                 | Some user \<Rightarrow>
                     Inr \<lparr>new_db = d', new_session = Some (u_id user), flashed = [],
                          answer = Redirect ''setup''\<rparr>)))"

subsection \<open>Setup\<close>

text \<open>Modelled from the spec: the table declarations are not among the sources. The spec gives
  \<open>PaySchedule: one per user\<close>, and the statement names the conflict target \<^verbatim>\<open>user_id\<close>: when
  the user has a row, its \<^verbatim>\<open>next_payday\<close> and \<^verbatim>\<open>typical_net_pay_cents\<close> are overwritten, else a
  row is added.\<close>

definition upsert_pay_schedule :: "db \<Rightarrow> int \<Rightarrow> string \<Rightarrow> int \<Rightarrow> db" where
  "upsert_pay_schedule d user_id next_payday net_pay_cents =
     (if user_id \<in> set (map ps_user_id (pay_schedules d))
      then d\<lparr>pay_schedules :=
               map (\<lambda>r. if ps_user_id r = user_id
                         then r\<lparr>ps_next_payday := next_payday,
                                ps_typical_net_pay_cents := net_pay_cents\<rparr>
                         else r) (pay_schedules d)\<rparr>
      else d\<lparr>pay_schedules := pay_schedules d @
               [\<lparr>ps_user_id = user_id, ps_frequency = ''biweekly'',
                 ps_next_payday = next_payday, ps_typical_net_pay_cents = net_pay_cents\<rparr>]\<rparr>)"

definition setup_post :: "db \<Rightarrow> int option \<Rightarrow> form \<Rightarrow> error + reply" where
  "setup_post d session f =
     with_login d session (\<lambda>user_id.
       let next_payday = strip (form_get f ''next_payday'' '''');
           net_pay = strip (form_get f ''typical_net_pay'' '''')
       in case parse_ymd next_payday of
            Inl e \<Rightarrow> Inr \<lparr>new_db = d, new_session = session,
                           flashed = [''Next payday must be YYYY-MM-DD.''],
                           answer = Render ''setup.html''\<rparr>
          | Inr parsed \<Rightarrow>
              bindE (cents_from_money_str net_pay) (\<lambda>net_pay_cents.
              bindE (bind_ints [user_id, net_pay_cents]) (\<lambda>bound.
                Inr \<lparr>new_db = upsert_pay_schedule d user_id next_payday net_pay_cents,
                     new_session = session, flashed = [''Setup saved!''],
                     answer = Redirect ''dashboard''\<rparr>)))"

subsection \<open>Dashboard\<close>

text \<open>The column \<^verbatim>\<open>occurred_on\<close> holds the text that was submitted, and the bounds of
  \<^verbatim>\<open>BETWEEN\<close> are the texts \<^verbatim>\<open>ymd(start)\<close> and \<^verbatim>\<open>ymd(end)\<close>: the comparison is the comparison of
  texts, character by character, a proper prefix being smaller.\<close>

fun str_less_eq :: "string \<Rightarrow> string \<Rightarrow> bool" where
  "str_less_eq [] ys = True"
| "str_less_eq (x # xs) [] = False"
| "str_less_eq (x # xs) (y # ys) =
     ((of_char x :: nat) < of_char y \<or> (x = y \<and> str_less_eq xs ys))"

definition sql_between :: "string \<Rightarrow> string \<Rightarrow> string \<Rightarrow> bool" where
  "sql_between x lo hi = (str_less_eq lo x \<and> str_less_eq x hi)"

text \<open>\<^verbatim>\<open>SUM\<close> adds integers within 64 bits: when a sum leaves that range on the way, the query
  fails with \<^verbatim>\<open>integer overflow\<close>, which \<^verbatim>\<open>sqlite3\<close> raises as \<^verbatim>\<open>OperationalError\<close>. The rows of
  a group are added here in the order of the table, which is the order of SQLite when no
  index serves the query (the table declarations are not among the sources); the order
  matters only for a group that holds amounts of both signs.\<close>

fun sql_sum :: "int \<Rightarrow> int list \<Rightarrow> error + int" where
  "sql_sum acc [] = Inr acc"
| "sql_sum acc (x # xs) =
     (if sql_integer (acc + x) then sql_sum (acc + x) xs else Inl OperationalError)"

fun sum_groups ::
  "(transaction_row \<Rightarrow> string) \<Rightarrow> string list \<Rightarrow> transaction_row list
   \<Rightarrow> error + (string \<times> int) list" where
  "sum_groups column [] selected = Inr []"
| "sum_groups column (k # ks) selected =
     bindE (sql_sum 0 (map t_amount_cents (filter (\<lambda>t. column t = k) selected)))
       (\<lambda>group_sum.
     bindE (sum_groups column ks selected) (\<lambda>rows. Inr ((k, group_sum) # rows)))"

text \<open>The totals of the pay period: the rows of \<^verbatim>\<open>SELECT kind, SUM(amount_cents) ... GROUP BY kind\<close>,
  written over the dictionary \<^verbatim>\<open>{"income": 0, "expense": 0}\<close>. The \<^verbatim>\<open>user_id\<close> of this query
  and of the later queries of the handler has been bound by \<open>get_schedule\<close> before.\<close>

definition period_rows ::
  "db \<Rightarrow> int \<Rightarrow> date \<Rightarrow> date \<Rightarrow> error + (string \<times> int) list" where
  "period_rows d user_id period_start period_end =
     (let selected = filter (\<lambda>t. t_user_id t = user_id
                          \<and> sql_between (t_occurred_on t) (ymd period_start) (ymd period_end))
                        (transactions d)
      in sum_groups t_kind (remdups (map t_kind selected)) selected)"

definition fill_totals :: "(string \<times> int) list \<Rightarrow> (string \<Rightarrow> int option)" where
  "fill_totals rows =
     fold (\<lambda>r totals. totals(fst r \<mapsto> (if snd r = 0 then 0 else snd r))) rows
       [''income'' \<mapsto> 0, ''expense'' \<mapsto> 0]"

definition dict_get :: "(string \<Rightarrow> int option) \<Rightarrow> string \<Rightarrow> error + int" where
  "dict_get m k = (case m k of None \<Rightarrow> Inl KeyError | Some v \<Rightarrow> Inr v)"

definition period_remaining ::
  "db \<Rightarrow> int \<Rightarrow> pay_schedule_row \<Rightarrow> date \<Rightarrow> date \<Rightarrow> error + (int \<times> int \<times> int)" where
  "period_remaining d user_id schedule period_start period_end =
     bindE (period_rows d user_id period_start period_end) (\<lambda>rows.
     let totals = fill_totals rows;
         typical = ps_typical_net_pay_cents schedule
     in bindE (dict_get totals ''income'') (\<lambda>income.
        bindE (dict_get totals ''expense'') (\<lambda>expense.
        Inr (income, expense, typical + income - expense))))"

text \<open>The bills due before the next payday. \<open>bill_due_date\<close> is the body of the loop up to the
  test against the next payday: the due date of a bill, seen from today.\<close>

definition active_bills :: "db \<Rightarrow> int \<Rightarrow> recurring_bill_row list" where
  "active_bills d user_id =
     sort_key rb_due_day
       (filter (\<lambda>b. rb_user_id b = user_id \<and> rb_active b = 1) (recurring_bills d))"

text \<open>\<^verbatim>\<open>(d.replace(day=1) + timedelta(days=32)).replace(day=1)\<close>, which the loop writes twice,
  for the first day of the month after \<open>d\<close>.\<close>

definition first_of_next_month :: "date \<Rightarrow> error + date" where
  "first_of_next_month d =
     bindE (replace_day d 1) (\<lambda>first.
     bindE (add_days first 32) (\<lambda>later.
     replace_day later 1))"

definition bill_due_date :: "date \<Rightarrow> int \<Rightarrow> error + date" where
  "bill_due_date today due_day =
     bindE (first_of_next_month today) (\<lambda>first_next_month.
     bindE (add_days first_next_month (- 1)) (\<lambda>last.
     let last_day = day last;
         actual_day = min due_day last_day
     in bindE (replace_day today actual_day) (\<lambda>due_date.
        if date_less due_date today
        then
          bindE (first_of_next_month today) (\<lambda>next_month.
          bindE (add_days next_month 32) (\<lambda>later.
          bindE (replace_day later 1) (\<lambda>first_next_next.
          bindE (add_days first_next_next (- 1)) (\<lambda>last_nm.
          let last_day_nm = day last_nm;
              actual_day_nm = min due_day last_day_nm
          in replace_day next_month actual_day_nm))))
        else Inr due_date)))"

fun bills_loop ::
  "date \<Rightarrow> date \<Rightarrow> recurring_bill_row list \<Rightarrow> due_item list \<times> int
   \<Rightarrow> error + (due_item list \<times> int)" where
  "bills_loop today next_payday [] acc = Inr acc"
| "bills_loop today next_payday (b # bs) (due_before, total_due_cents) =
     bindE (bill_due_date today (rb_due_day b)) (\<lambda>due_date.
       if date_less due_date next_payday
       then bindE (money_from_cents (rb_amount_cents b)) (\<lambda>amount.
              bills_loop today next_payday bs
                (due_before @ [\<lparr>di_name = rb_name b, di_amount = amount,
                                 di_due = ymd due_date\<rparr>],
                 total_due_cents + rb_amount_cents b))
       else bills_loop today next_payday bs (due_before, total_due_cents))"

text \<open>The daily spend limit.\<close>

definition days_left :: "date \<Rightarrow> date \<Rightarrow> int" where
  "days_left period_end today =
     (let n = days_between period_end today + 1 in if n < 1 then 1 else n)"

definition floor_div :: "int \<Rightarrow> int \<Rightarrow> error + int" where
  "floor_div a b = (if b = 0 then Inl ZeroDivisionError else Inr (a div b))"

text \<open>The arguments of \<^verbatim>\<open>render_template\<close>: the amounts are written by \<open>money_from_cents\<close>,
  in the order of the call.\<close>

definition dashboard_context ::
  "date \<times> date \<times> date \<Rightarrow> int \<Rightarrow> int \<times> int \<times> int \<Rightarrow> int \<Rightarrow> due_item list \<times> int
   \<Rightarrow> error + dashboard_ctx" where
  "dashboard_context period typical totals daily_limit bills =
     (case (period, totals, bills) of
        ((period_start, period_end, next_payday), (income, expense, remaining),
         (due_before, total_due_cents)) \<Rightarrow>
          bindE (money_from_cents typical) (\<lambda>typical_text.
          bindE (money_from_cents income) (\<lambda>income_text.
          bindE (money_from_cents expense) (\<lambda>expense_text.
          bindE (money_from_cents remaining) (\<lambda>remaining_text.
          bindE (money_from_cents daily_limit) (\<lambda>daily_limit_text.
          bindE (money_from_cents total_due_cents) (\<lambda>bills_total_text.
          bindE (money_from_cents (remaining - total_due_cents)) (\<lambda>after_bills_text.
          Inr \<lparr>ctx_period_start = ymd period_start,
               ctx_period_end = ymd period_end,
               ctx_next_payday = ymd next_payday,
               ctx_typical = typical_text,
               ctx_income = income_text,
               ctx_expense = expense_text,
               ctx_remaining = remaining_text,
               ctx_daily_limit = daily_limit_text,
               ctx_bills_due = due_before,
               ctx_bills_total = bills_total_text,
               ctx_after_bills = after_bills_text\<rparr>))))))))"

text \<open>The query for the top category of the period,
  \<^verbatim>\<open>SELECT category, SUM(amount_cents) ... AND kind = 'expense' ... GROUP BY category\<close>. Its
  sums can fail as the sums above do. The row that \<^verbatim>\<open>ORDER BY total DESC LIMIT 1\<close> keeps is
  only displayed and is left out of the page modelled here; its total is an integer of
  64 bits, which \<open>money_from_cents\<close> writes without raising.\<close>

definition category_rows ::
  "db \<Rightarrow> int \<Rightarrow> date \<Rightarrow> date \<Rightarrow> error + (string \<times> int) list" where
  "category_rows d user_id period_start period_end =
     (let selected = filter (\<lambda>t. t_user_id t = user_id \<and> t_kind t = ''expense''
                          \<and> sql_between (t_occurred_on t) (ymd period_start) (ymd period_end))
                        (transactions d)
      in sum_groups t_category (remdups (map t_category selected)) selected)"

text \<open>The handler.\<close>

definition dashboard :: "db \<Rightarrow> int option \<Rightarrow> date \<Rightarrow> error + reply" where
  "dashboard d session today =
     with_login d session (\<lambda>user_id.
       bindE (get_schedule d user_id) (\<lambda>row.
       case row of
         None \<Rightarrow> Inr \<lparr>new_db = d, new_session = session, flashed = [],
                       answer = Redirect ''setup''\<rparr>
       | Some schedule \<Rightarrow>
           bindE (current_pay_period schedule) (\<lambda>(period_start, period_end, next_payday).
           bindE (period_remaining d user_id schedule period_start period_end)
             (\<lambda>(income, expense, remaining).
           bindE (bills_loop today next_payday (active_bills d user_id) ([], 0))
             (\<lambda>(due_before, total_due_cents).
           bindE (floor_div remaining (days_left period_end today)) (\<lambda>daily_limit.
           bindE (category_rows d user_id period_start period_end) (\<lambda>top_rows.
           bindE (dashboard_context (period_start, period_end, next_payday)
                    (ps_typical_net_pay_cents schedule) (income, expense, remaining)
                    daily_limit (due_before, total_due_cents)) (\<lambda>ctx.
           Inr \<lparr>new_db = d, new_session = session, flashed = [],
                answer = Render_dashboard ctx\<rparr>))))))))"

subsection \<open>New transaction\<close>

definition transaction_new_post :: "db \<Rightarrow> int option \<Rightarrow> date \<Rightarrow> form \<Rightarrow> error + reply" where
  "transaction_new_post d session today f =
     with_login d session (\<lambda>user_id.
       let kind = form_get f ''kind'' ''expense'';
           amount = form_get f ''amount'' ''0'';
           category = strip (form_get f ''category'' ''Other'');
           occurred_on = strip (form_get f ''occurred_on'' (ymd today));
           note = strip (form_get f ''note'' '''')
       in if kind \<notin> set [''income'', ''expense'']
          then Inr \<lparr>new_db = d, new_session = session, flashed = [''Invalid type.''],
                    answer = Redirect ''transaction_new''\<rparr>
          else
            (case parse_ymd occurred_on of
               Inl e \<Rightarrow> Inr \<lparr>new_db = d, new_session = session,
                              flashed = [''Date must be YYYY-MM-DD.''],
                              answer = Redirect ''transaction_new''\<rparr>
             | Inr parsed \<Rightarrow>
                 bindE (cents_from_money_str amount) (\<lambda>amount_cents.
                 bindE (bind_ints [user_id, amount_cents]) (\<lambda>bound.
                   Inr \<lparr>new_db = d\<lparr>transactions := transactions d @
                          [\<lparr>t_user_id = user_id, t_kind = kind, t_amount_cents = amount_cents,
                            t_category = category, t_occurred_on = occurred_on,
                            t_note = note\<rparr>]\<rparr>,
                        new_session = session, flashed = [''Transaction added!''],
                        answer = Redirect ''transactions''\<rparr>))))"

subsection \<open>Budgets\<close>

text \<open>Modelled from the spec: the table declarations are not among the sources. The spec gives
  \<open>Budget: (user_id, category) unique\<close>, and the statement names that pair as its conflict
  target: when the pair has a row, its \<^verbatim>\<open>limit_cents\<close> is overwritten, else a row is added.\<close>

definition upsert_budget :: "db \<Rightarrow> int \<Rightarrow> string \<Rightarrow> int \<Rightarrow> db" where
  "upsert_budget d user_id category limit_cents =
     (if (user_id, category) \<in> set (map (\<lambda>b. (b_user_id b, b_category b)) (budgets d))
      then d\<lparr>budgets :=
               map (\<lambda>b. if b_user_id b = user_id \<and> b_category b = category
                         then b\<lparr>b_limit_cents := limit_cents\<rparr> else b) (budgets d)\<rparr>
      else d\<lparr>budgets := budgets d @
               [\<lparr>b_user_id = user_id, b_category = category, b_limit_cents = limit_cents\<rparr>]\<rparr>)"

definition budgets_post :: "db \<Rightarrow> int option \<Rightarrow> form \<Rightarrow> error + reply" where
  "budgets_post d session f =
     with_login d session (\<lambda>user_id.
       let category = strip (form_get f ''category'' ''Other'');
           limit = strip (form_get f ''limit'' ''0'')
       in bindE (cents_from_money_str limit) (\<lambda>limit_cents.
          bindE (bind_ints [user_id, limit_cents]) (\<lambda>bound.
            Inr \<lparr>new_db = upsert_budget d user_id category limit_cents,
                 new_session = session, flashed = [''Budget saved!''],
                 answer = Redirect ''budgets''\<rparr>)))"

subsection \<open>Bills\<close>

definition bills_post :: "db \<Rightarrow> int option \<Rightarrow> form \<Rightarrow> error + reply" where
  "bills_post d session f =
     with_login d session (\<lambda>user_id.
       let name = strip (form_get f ''name'' '''');
           amount = strip (form_get f ''amount'' ''0'');
           due_day = strip (form_get f ''due_day'' ''1'')
       in if name = []
          then Inr \<lparr>new_db = d, new_session = session, flashed = [''Bill name required.''],
                    answer = Redirect ''bills''\<rparr>
          else
            (case py_int due_day of
               None \<Rightarrow> Inr \<lparr>new_db = d, new_session = session,
                             flashed = [''Due day must be a number 1-31.''],
                             answer = Redirect ''bills''\<rparr>
             | Some due_day_int \<Rightarrow>
                 if due_day_int < 1 \<or> due_day_int > 31
                 then Inr \<lparr>new_db = d, new_session = session,
                           flashed = [''Due day must be between 1 and 31.''],
                           answer = Redirect ''bills''\<rparr>
                 else
                   bindE (cents_from_money_str amount) (\<lambda>amount_cents.
                   bindE (bind_ints [user_id, amount_cents, due_day_int]) (\<lambda>bound.
                     Inr \<lparr>new_db = d\<lparr>recurring_bills := recurring_bills d @
                            [\<lparr>rb_user_id = user_id, rb_name = name,
                              rb_amount_cents = amount_cents, rb_due_day = due_day_int,
                              rb_active = 1\<rparr>]\<rparr>,
                          new_session = session, flashed = [''Bill added!''],
                          answer = Redirect ''bills''\<rparr>))))"

subsection \<open>An example store\<close>

text \<open>A small store on which the handlers are run in the examples below: two users, the pay
  schedule of the first, four transactions, a budget and three bills.\<close>

definition demo_db :: db where
  "demo_db =
     \<lparr>users = [\<lparr>u_id = 1, u_email = ''ana@example.org'', u_password_hash = ''h1''\<rparr>,
               \<lparr>u_id = 2, u_email = ''ben@example.org'', u_password_hash = ''h2''\<rparr>],
      pay_schedules = [\<lparr>ps_user_id = 1, ps_frequency = ''biweekly'',
                         ps_next_payday = ''2024-01-15'', ps_typical_net_pay_cents = 100000\<rparr>],
      transactions =
        [\<lparr>t_user_id = 1, t_kind = ''income'', t_amount_cents = 5000, t_category = ''Other'',
          t_occurred_on = ''2024-01-03'', t_note = ''''\<rparr>,
         \<lparr>t_user_id = 1, t_kind = ''expense'', t_amount_cents = 2500, t_category = ''Coffee'',
          t_occurred_on = ''2024-01-05'', t_note = ''''\<rparr>,
         \<lparr>t_user_id = 2, t_kind = ''expense'', t_amount_cents = 1000, t_category = ''Rent'',
          t_occurred_on = ''2024-01-05'', t_note = ''''\<rparr>,
         \<lparr>t_user_id = 1, t_kind = ''expense'', t_amount_cents = 700, t_category = ''Transit'',
          t_occurred_on = ''2023-12-31'', t_note = ''''\<rparr>],
      budgets = [\<lparr>b_user_id = 1, b_category = ''Coffee'', b_limit_cents = 4000\<rparr>],
      recurring_bills =
        [\<lparr>rb_user_id = 1, rb_name = ''Phone'', rb_amount_cents = 3000, rb_due_day = 12,
          rb_active = 1\<rparr>,
         \<lparr>rb_user_id = 1, rb_name = ''Rent'', rb_amount_cents = 80000, rb_due_day = 1,
          rb_active = 1\<rparr>,
         \<lparr>rb_user_id = 1, rb_name = ''Gym'', rb_amount_cents = 2000, rb_due_day = 31,
          rb_active = 1\<rparr>]\<rparr>"

definition demo_schedule :: pay_schedule_row where
  "demo_schedule = \<lparr>ps_user_id = 1, ps_frequency = ''biweekly'',
                      ps_next_payday = ''2024-01-15'', ps_typical_net_pay_cents = 100000\<rparr>"

definition demo_ctx :: dashboard_ctx where
  "demo_ctx =
     \<lparr>ctx_period_start = ''2024-01-01'', ctx_period_end = ''2024-01-14'',
      ctx_next_payday = ''2024-01-15'', ctx_typical = ''1000.00'', ctx_income = ''50.00'',
      ctx_expense = ''25.00'', ctx_remaining = ''1025.00'', ctx_daily_limit = ''205.00'',
      ctx_bills_due = [\<lparr>di_name = ''Phone'', di_amount = ''30.00'', di_due = ''2024-01-12''\<rparr>],
      ctx_bills_total = ''30.00'', ctx_after_bills = ''995.00''\<rparr>"

definition demo_bill_form :: form where
  "demo_bill_form = map_of [(''name'', ''  Internet ''), (''amount'', ''45.5''), (''due_day'', ''28'')]"

definition bad_amount_form :: form where
  "bad_amount_form = map_of [(''name'', ''Rent''), (''amount'', ''abc''), (''due_day'', ''1'')]"

definition big_amount_form :: form where
  "big_amount_form = map_of [(''name'', ''Rent''), (''amount'', ''92233720368547758.08''),
     (''due_day'', ''1'')]"

definition demo_signup_form :: form where
  "demo_signup_form = map_of [(''email'', '' Ana@Example.org ''), (''password'', ''secret'')]"

definition new_signup_form :: form where
  "new_signup_form = map_of [(''email'', ''Cy@Example.org''), (''password'', ''secret'')]"

definition budget_key :: "budget_row \<Rightarrow> int \<times> string" where
  "budget_key b = (b_user_id b, b_category b)"

definition budgets_unique :: "db \<Rightarrow> bool" where
  "budgets_unique d = distinct (map budget_key (budgets d))"

definition budgets_posts :: "(int option \<times> form) list \<Rightarrow> db \<Rightarrow> db" where
  "budgets_posts reqs d =
     fold (\<lambda>req d'. db_after d' (budgets_post d' (fst req) (snd req))) reqs d"

definition demo_budget_form :: form where
  "demo_budget_form = map_of [(''category'', ''Coffee''), (''limit'', ''60'')]"

definition bad_budget_form :: form where
  "bad_budget_form = map_of [(''category'', ''Coffee''), (''limit'', ''abc'')]"

definition big_budget_form :: form where
  "big_budget_form = map_of [(''category'', ''Coffee''), (''limit'', ''92233720368547758.08'')]"

definition schedules_ok :: "db \<Rightarrow> bool" where
  "schedules_ok d =
     (distinct (map ps_user_id (pay_schedules d))
      \<and> (\<forall>r \<in> set (pay_schedules d). ps_frequency r = ''biweekly''))"

definition setup_posts :: "(int option \<times> form) list \<Rightarrow> db \<Rightarrow> db" where
  "setup_posts reqs d =
     fold (\<lambda>req d'. db_after d' (setup_post d' (fst req) (snd req))) reqs d"

definition demo_setup_form :: form where
  "demo_setup_form = map_of [(''next_payday'', ''2024-02-12''), (''typical_net_pay'', ''1200.50'')]"

definition bad_setup_form :: form where
  "bad_setup_form = map_of [(''next_payday'', ''12/02/2024''), (''typical_net_pay'', ''1200.50'')]"

definition bad_pay_form :: form where
  "bad_pay_form = map_of [(''next_payday'', ''2024-02-12''), (''typical_net_pay'', ''abc'')]"

definition big_pay_form :: form where
  "big_pay_form = map_of [(''next_payday'', ''2024-02-12''),
     (''typical_net_pay'', ''92233720368547758.08'')]"

definition unpadded_form :: form where
  "unpadded_form = map_of [(''kind'', ''expense''), (''amount'', ''10.00''),
     (''category'', ''Coffee''), (''occurred_on'', ''2024-1-5'')]"

definition unpadded_row :: transaction_row where
  "unpadded_row = \<lparr>t_user_id = 1, t_kind = ''expense'', t_amount_cents = 1000,
     t_category = ''Coffee'', t_occurred_on = ''2024-1-5'', t_note = ''''\<rparr>"

definition unpadded_db :: db where
  "unpadded_db = demo_db\<lparr>transactions := transactions demo_db @ [unpadded_row]\<rparr>"

section \<open>Properties\<close>

subsection \<open>Decimal text\<close>

lemma digit_char_is_digit: "n < 10 \<Longrightarrow> is_digit (digit_char n)"
  by (simp add: is_digit_def digit_char_def digit_chars_def nth_Cons')

lemma digit_val_digit_char: "n < 10 \<Longrightarrow> digit_val (digit_char n) = n"
  unfolding digit_val_def digit_char_def digit_chars_def
  by (auto simp add: numeral_eq_Suc less_Suc_eq)

lemma show_nat_digits: "\<forall>c \<in> set (show_nat n). is_digit c"
proof (induction n rule: show_nat.induct)
  case (1 n)
  show ?case
  proof (cases "n < 10")
    case True
    then show ?thesis
      by (subst show_nat.simps) (simp add: digit_char_is_digit)
  next
    case False
    with 1 show ?thesis
      by (subst show_nat.simps) (simp add: digit_char_is_digit)
  qed
qed

lemma show_nat_not_empty: "show_nat n \<noteq> []"
  by (subst show_nat.simps) simp

lemma show_nat_small: "n < 10 \<Longrightarrow> show_nat n = [digit_char n]"
  by (subst show_nat.simps) simp

lemma show_nat_step: "\<not> n < 10 \<Longrightarrow> show_nat n = show_nat (n div 10) @ [digit_char (n mod 10)]"
  by (subst show_nat.simps) simp

text \<open>A number has at most \<open>k\<close> digits exactly when it is below \<open>10 ^ k\<close>.\<close>

lemma show_nat_length_le: "0 < k \<Longrightarrow> n < 10 ^ k \<Longrightarrow> length (show_nat n) \<le> k"
proof (induction n arbitrary: k rule: show_nat.induct)
  case (1 n)
  show ?case
  proof (cases "n < 10")
    case True
    with 1(2) show ?thesis by (simp add: show_nat_small)
  next
    case False
    from 1(2) obtain j where k: "k = Suc j" by (cases k) auto
    have j: "0 < j"
    proof (rule ccontr)
      assume "\<not> 0 < j"
      with k 1(3) have "n < 10" by simp
      with False show False by simp
    qed
    from 1(3) have "n < 10 * 10 ^ j" by (simp add: k)
    then have "n div 10 < 10 ^ j" by simp
    with False j have "length (show_nat (n div 10)) \<le> j" by (rule 1(1))
    with False show ?thesis by (simp add: show_nat_step k)
  qed
qed

lemma show_nat_length_gt: "10 ^ k \<le> n \<Longrightarrow> k < length (show_nat n)"
proof (induction n arbitrary: k rule: show_nat.induct)
  case (1 n)
  show ?case
  proof (cases k)
    case 0
    then show ?thesis using show_nat_not_empty [of n] by simp
  next
    case (Suc j)
    with 1(2) have le: "10 * 10 ^ j \<le> n" by simp
    have "(1::nat) \<le> 10 ^ j" by simp
    with le have n: "\<not> n < 10" by linarith
    from le have "10 ^ j \<le> n div 10" by simp
    with n have "j < length (show_nat (n div 10))" by (rule 1(1))
    with n show ?thesis by (simp add: show_nat_step Suc)
  qed
qed

lemma parse_digits_all_digits:
  "\<forall>c \<in> set ds. is_digit c \<Longrightarrow>
   parse_digits acc ds = Some (foldl (\<lambda>a c. 10 * a + digit_val c) acc ds)"
  by (induction ds arbitrary: acc) simp_all

lemma foldl_show_nat: "foldl (\<lambda>a c. 10 * a + digit_val c) 0 (show_nat n) = n"
proof (induction n rule: show_nat.induct)
  case (1 n)
  show ?case
  proof (cases "n < 10")
    case True
    then show ?thesis
      by (subst show_nat.simps) (simp add: digit_val_digit_char)
  next
    case False
    with 1 show ?thesis
      by (subst show_nat.simps) (simp add: digit_val_digit_char)
  qed
qed

lemma is_digit_not_space: "is_digit c \<Longrightarrow> \<not> is_space c"
  by (auto simp add: is_digit_def is_space_def digit_chars_def)

lemma is_digit_not_c_space: "is_digit c \<Longrightarrow> \<not> is_c_space c"
  by (auto simp add: is_digit_def is_c_space_def digit_chars_def)

lemma is_digit_not_dot: "is_digit c \<Longrightarrow> c \<noteq> CHR ''.''"
  by (auto simp add: is_digit_def digit_chars_def)

lemma is_digit_not_sign: "is_digit c \<Longrightarrow> c \<noteq> CHR ''-'' \<and> c \<noteq> CHR ''+''"
  by (auto simp add: is_digit_def digit_chars_def)

lemma strip_id:
  assumes "s \<noteq> []" "\<not> is_space (hd s)" "\<not> is_space (last s)"
  shows "strip s = s"
proof -
  from assms have a: "dropWhile is_space s = s" by (cases s) simp_all
  from assms have "dropWhile is_space (rev s) = rev s"
    by (cases "rev s") (simp_all add: hd_rev)
  with a show ?thesis by (simp add: strip_def)
qed

lemma skip_spaces_id:
  assumes "s \<noteq> []" "\<not> is_c_space (hd s)" "\<not> is_c_space (last s)"
  shows "skip_spaces s = s"
proof -
  from assms have a: "dropWhile is_c_space s = s" by (cases s) simp_all
  from assms have "dropWhile is_c_space (rev s) = rev s"
    by (cases "rev s") (simp_all add: hd_rev)
  with a show ?thesis by (simp add: skip_spaces_def)
qed

lemma py_int_digits:
  assumes "ds \<noteq> []" "\<forall>c \<in> set ds. is_digit c" "length ds \<le> int_max_str_digits"
  shows "py_int ds = Some (int (foldl (\<lambda>a c. 10 * a + digit_val c) 0 ds))"
proof -
  from assms have h: "is_digit (hd ds)" and l: "is_digit (last ds)" by simp_all
  then have s: "skip_spaces ds = ds"
    using assms(1) by (simp add: skip_spaces_id is_digit_not_c_space)
  obtain c cs where ds: "ds = c # cs" using assms(1) by (cases ds) auto
  with h have c: "is_digit c" by simp
  from assms(2) have "filter is_digit ds = ds" by (simp add: filter_id_conv)
  with assms(3) have "\<not> int_max_str_digits < length (filter is_digit ds)" by simp
  then have "parse_unsigned ds = Some (foldl (\<lambda>a c. 10 * a + digit_val c) 0 ds)"
    using assms(1,2) h by (simp add: parse_unsigned_def parse_digits_all_digits)
  then show ?thesis
    using s c is_digit_not_sign [OF c] by (simp add: py_int_def ds)
qed

lemma digits_limit_pos: "0 < int_max_str_digits"
  by (simp add: int_max_str_digits_def)

lemma digits_limit_2: "2 \<le> int_max_str_digits"
  by (simp add: int_max_str_digits_def)

lemma hundred_le_limit: "(100::int) \<le> 10 ^ int_max_str_digits"
  using power_increasing [OF digits_limit_2, of "10::int"] by simp

lemma py_int_show_nat: "n < 10 ^ int_max_str_digits \<Longrightarrow> py_int (show_nat n) = Some (int n)"
  using show_nat_length_le [OF digits_limit_pos, of n]
  by (simp add: py_int_digits show_nat_not_empty show_nat_digits foldl_show_nat)

lemma zero_pad_2:
  assumes "m < 100"
  shows "zero_pad 2 m = [digit_char (m div 10), digit_char (m mod 10)]"
proof (cases "m < 10")
  case True
  then show ?thesis
    by (simp add: zero_pad_def show_nat_small digit_char_def digit_chars_def)
next
  case False
  with assms have "m div 10 < 10" by simp
  with False have "show_nat m = [digit_char (m div 10), digit_char (m mod 10)]"
    by (subst show_nat.simps) (simp add: show_nat_small)
  then show ?thesis by (simp add: zero_pad_def)
qed

lemma py_int_zero_pad_2:
  assumes "m < 100"
  shows "py_int (zero_pad 2 m) = Some (int m)"
proof -
  have "m div 10 < 10" "m mod 10 < 10" using assms by simp_all
  then show ?thesis
    using digits_limit_2
    by (simp add: zero_pad_2 [OF assms] py_int_digits digit_char_is_digit digit_val_digit_char)
qed

lemma split_dot_digits:
  assumes "\<forall>c \<in> set ds. is_digit c"
  shows "split_dot (ds @ CHR ''.'' # rest) = (ds, rest)"
proof -
  from assms have "\<forall>c \<in> set ds. c \<noteq> CHR ''.''" using is_digit_not_dot by blast
  then show ?thesis
    by (simp add: split_dot_def takeWhile_append2 dropWhile_append2)
qed

lemma py_str_nat:
  assumes "0 \<le> n" "n < 10 ^ int_max_str_digits"
  shows "py_str n = Inr (show_nat (nat n))"
proof -
  from assms have "nat n < 10 ^ int_max_str_digits" by (simp add: nat_less_iff)
  with digits_limit_pos have "length (show_nat (nat n)) \<le> int_max_str_digits"
    by (rule show_nat_length_le)
  with assms(1) show ?thesis by (simp add: py_str_def Let_def)
qed

lemma py_str_limit:
  assumes "10 ^ int_max_str_digits \<le> \<bar>n\<bar>"
  shows "py_str n = Inl ValueError"
proof -
  from assms have "10 ^ int_max_str_digits \<le> nat \<bar>n\<bar>" by (simp add: le_nat_iff)
  then have "int_max_str_digits < length (show_nat (nat \<bar>n\<bar>))" by (rule show_nat_length_gt)
  then show ?thesis by (simp add: py_str_def Let_def)
qed

lemma format_02d_small:
  assumes "0 \<le> m" "m < 100"
  shows "format_02d m = Inr (zero_pad 2 (nat m))"
proof -
  from assms hundred_le_limit have "py_str m = Inr (show_nat (nat m))"
    by (intro py_str_nat) simp_all
  then show ?thesis by (simp add: format_02d_def bindE_def zero_pad_def)
qed

subsection \<open>Money strings\<close>

text \<open>The text of an amount, when it can be written: the sign, the dollars, a dot and the
  cents on two digits.\<close>

definition money_text :: "int \<Rightarrow> string" where
  "money_text c0 =
     (let sign = (if c0 < 0 then ''-'' else '''');
          c = nat \<bar>c0\<bar>
      in sign @ show_nat (c div 100) @ ''.'' @ zero_pad 2 (c mod 100))"

lemma money_from_cents_text:
  assumes "\<bar>c\<bar> < 100 * 10 ^ int_max_str_digits"
  shows "money_from_cents c = Inr (money_text c)"
proof -
  define a where "a = \<bar>c\<bar>"
  have a: "0 \<le> a" by (simp add: a_def)
  from assms have "a < 10 ^ int_max_str_digits * 100" by (simp add: a_def)
  then have "a div 100 < 10 ^ int_max_str_digits" by (simp add: div_less_iff_less_mult)
  moreover from a have "0 \<le> a div 100" by simp
  ultimately have d: "py_str (a div 100) = Inr (show_nat (nat (a div 100)))"
    by (intro py_str_nat)
  have r: "format_02d (a mod 100) = Inr (zero_pad 2 (nat (a mod 100)))"
    by (intro format_02d_small) simp_all
  from a have n: "nat (a div 100) = nat a div 100" "nat (a mod 100) = nat a mod 100"
    by (simp_all add: nat_div_distrib nat_mod_distrib)
  show ?thesis
    unfolding money_from_cents_def money_text_def Let_def a_def [symmetric]
    by (simp add: d r n bindE_def)
qed

lemma money_from_cents_limit:
  assumes "100 * 10 ^ int_max_str_digits \<le> \<bar>c\<bar>"
  shows "money_from_cents c = Inl ValueError"
proof -
  define a where "a = \<bar>c\<bar>"
  from assms have "10 ^ int_max_str_digits * 100 \<le> a" by (simp add: a_def)
  then have "10 ^ int_max_str_digits \<le> a div 100" by (simp add: less_eq_div_iff_mult_less_eq)
  moreover have "0 \<le> a div 100" by (simp add: a_def)
  ultimately have "py_str (a div 100) = Inl ValueError" by (intro py_str_limit) simp
  then show ?thesis
    unfolding money_from_cents_def Let_def a_def [symmetric] by (simp add: bindE_def)
qed

lemma money_text_read:
  assumes "0 \<le> c" "c < 100 * 10 ^ int_max_str_digits"
  shows "cents_from_money_str (money_text c) = Inr c"
proof -
  define n where "n = nat c"
  define ds where "ds = show_nat (n div 100)"
  define m where "m = n mod 100"
  have m: "m < 100" by (simp add: m_def)
  have money: "money_text c = ds @ CHR ''.'' # zero_pad 2 m"
    using assms(1) by (simp add: money_text_def Let_def n_def ds_def m_def)
  have dig: "\<forall>c \<in> set ds. is_digit c" and ne: "ds \<noteq> []"
    by (simp_all add: ds_def show_nat_digits show_nat_not_empty)
  have zp: "zero_pad 2 m = [digit_char (m div 10), digit_char (m mod 10)]"
    using m by (rule zero_pad_2)
  have "is_digit (hd ds)" using dig ne by simp
  moreover have "is_digit (digit_char (m mod 10))" by (simp add: digit_char_is_digit)
  ultimately have st: "strip (ds @ CHR ''.'' # zero_pad 2 m) = ds @ CHR ''.'' # zero_pad 2 m"
    using ne by (intro strip_id) (simp_all add: zp is_digit_not_space)
  from assms have "int n < 10 ^ int_max_str_digits * 100" by (simp add: n_def)
  then have "int n div 100 < 10 ^ int_max_str_digits" by (simp add: div_less_iff_less_mult)
  then have "int (n div 100) < int (10 ^ int_max_str_digits)" by (simp add: zdiv_int)
  then have "n div 100 < 10 ^ int_max_str_digits" by (simp only: of_nat_less_iff)
  then have d: "int_or_raise ds = Inr (int (n div 100))"
    by (simp add: int_or_raise_def ds_def py_int_show_nat)
  have c2: "int_or_raise (zero_pad 2 m) = Inr (int m)"
    by (simp add: int_or_raise_def py_int_zero_pad_2 [OF m])
  have tk: "take 2 (zero_pad 2 m @ ''00'') = zero_pad 2 m" by (simp add: zp)
  have "cents_from_money_str (ds @ CHR ''.'' # zero_pad 2 m) = Inr (int (n div 100) * 100 + int m)"
    unfolding cents_from_money_str_def st Let_def
    by (simp add: split_dot_digits [OF dig] tk d c2 bindE_def del: take_append)
  moreover have "int (n div 100) * 100 + int m = c"
  proof -
    have "int (n div 100) * 100 + int (n mod 100) = int n"
      by (simp add: zdiv_int zmod_int)
    then show ?thesis using assms(1) by (simp add: n_def m_def)
  qed
  ultimately show ?thesis by (simp add: money)
qed

lemma small_amount: "\<bar>c::int\<bar> < 10000 \<Longrightarrow> \<bar>c\<bar> < 100 * 10 ^ int_max_str_digits"
  using hundred_le_limit by linarith

text \<open>Claim C9, as amended. For every number of cents \<open>c\<close> from 0 up to, but not including,
  \<open>100 * 10 ^ 4300\<close> (the dollars then have at most 4300 digits), writing \<open>c\<close> as a money
  string with \<open>money_from_cents\<close> and reading that string back with \<open>cents_from_money_str\<close>
  raises nothing and gives \<open>c\<close> again.\<close>

theorem money_round_trip:
  assumes "0 \<le> c" and "c < 100 * 10 ^ 4300"
  shows "bindE (money_from_cents c) cents_from_money_str = Inr c"
proof -
  have b: "c < 100 * 10 ^ int_max_str_digits"
    unfolding int_max_str_digits_def by (rule assms(2))
  with assms(1) have "money_from_cents c = Inr (money_text c)"
    by (intro money_from_cents_text) simp
  with money_text_read [OF assms(1) b] show ?thesis by (simp add: bindE_def)
qed

theorem money_round_trip_witness:
  "bindE (money_from_cents 1234) cents_from_money_str = Inr 1234
   \<and> bindE (money_from_cents 0) cents_from_money_str = Inr 0
   \<and> bindE (money_from_cents (100 * 10 ^ 4300 - 1)) cents_from_money_str
       = Inr (100 * 10 ^ 4300 - 1)"
proof -
  have a: "(0::int) \<le> 1234" "(0::int) \<le> 0" by simp_all
  have "(1234::int) < 100 * 10 ^ int_max_str_digits" "(0::int) < 100 * 10 ^ int_max_str_digits"
    using small_amount [of 1234] small_amount [of 0] by simp_all
  then have b: "(1234::int) < 100 * 10 ^ 4300" "(0::int) < 100 * 10 ^ 4300"
    unfolding int_max_str_digits_def .
  have "(0::int) \<le> 100 * 10 ^ int_max_str_digits - 1"
    using hundred_le_limit by linarith
  then have c: "(0::int) \<le> 100 * 10 ^ 4300 - 1"
    unfolding int_max_str_digits_def .
  have "(100::int) * 10 ^ int_max_str_digits - 1 < 100 * 10 ^ int_max_str_digits" by simp
  then have d: "(100::int) * 10 ^ 4300 - 1 < 100 * 10 ^ 4300"
    unfolding int_max_str_digits_def .
  from money_round_trip [OF a(1) b(1)] money_round_trip [OF a(2) b(2)]
    money_round_trip [OF c d]
  show ?thesis by (intro conjI)
qed

text \<open>The claim as it was stated fails from \<open>100 * 10 ^ 4300\<close> cents on: the dollars then have
  more than 4300 digits, and \<open>money_from_cents\<close> raises \<^verbatim>\<open>ValueError\<close> instead of returning a
  string.\<close>

theorem money_round_trip_counterexample:
  "(0::int) \<le> 100 * 10 ^ 4300
   \<and> money_from_cents (100 * 10 ^ 4300) = Inl ValueError
   \<and> bindE (money_from_cents (100 * 10 ^ 4300)) cents_from_money_str = Inl ValueError"
proof -
  have m: "money_from_cents (100 * 10 ^ int_max_str_digits) = Inl ValueError"
    by (rule money_from_cents_limit) simp
  then have "bindE (money_from_cents (100 * 10 ^ int_max_str_digits)) cents_from_money_str
      = Inl ValueError"
    by (simp add: bindE_def)
  moreover have "(0::int) \<le> 100 * 10 ^ int_max_str_digits" by simp
  ultimately have "(0::int) \<le> 100 * 10 ^ int_max_str_digits
      \<and> money_from_cents (100 * 10 ^ int_max_str_digits) = Inl ValueError
      \<and> bindE (money_from_cents (100 * 10 ^ int_max_str_digits)) cents_from_money_str
          = Inl ValueError"
    using m by blast
  then show ?thesis unfolding int_max_str_digits_def .
qed

subsection \<open>Ordinals and dates\<close>

definition year_length :: "int \<Rightarrow> int" where
  "year_length y = (if is_leap y then 366 else 365)"

lemma find_year_spec:
  "days_before_year y0 < n \<Longrightarrow>
   y0 \<le> find_year n y0 \<and> days_before_year (find_year n y0) < n
   \<and> n \<le> days_before_year (find_year n y0 + 1)"
proof (induction n y0 rule: find_year.induct)
  case (1 n y)
  show ?case
  proof (cases "days_before_year (y + 1) < n")
    case True
    with 1 have "y + 1 \<le> find_year n (y + 1) \<and> days_before_year (find_year n (y + 1)) < n
        \<and> n \<le> days_before_year (find_year n (y + 1) + 1)"
      by blast
    moreover from True have "find_year n y = find_year n (y + 1)"
      by (subst find_year.simps) simp
    ultimately show ?thesis by simp
  next
    case False
    then have "find_year n y = y" by (subst find_year.simps) simp
    with False 1 show ?thesis by simp
  qed
qed

lemma year_estimate:
  assumes "1 \<le> n"
  shows "1 \<le> (n - 1) div 366 + 1" and "days_before_year ((n - 1) div 366 + 1) < n"
proof -
  define q where "q = (n - 1) div 366"
  have "366 * q + (n - 1) mod 366 = n - 1" unfolding q_def by (rule mult_div_mod_eq)
  moreover have "0 \<le> (n - 1) mod 366" by (rule pos_mod_sign) simp
  ultimately have b: "366 * q \<le> n - 1" by linarith
  have "0 \<le> q" unfolding q_def using assms by (simp add: pos_imp_zdiv_nonneg_iff)
  then show "1 \<le> (n - 1) div 366 + 1" unfolding q_def by simp
  from \<open>0 \<le> q\<close> have "days_before_year (q + 1) \<le> 366 * (q + 1 - 1)"
    by (intro days_before_year_upper) simp
  with b show "days_before_year ((n - 1) div 366 + 1) < n" unfolding q_def by simp
qed

definition month_numbers :: "int list" where
  "month_numbers = [1, 2, 3, 4, 5, 6, 7, 8, 9, 10, 11, 12]"

lemma month_range: "1 \<le> m \<Longrightarrow> m \<le> 12 \<Longrightarrow> m \<in> set month_numbers"
  unfolding month_numbers_def by (simp only: list.set insert_iff empty_iff) arith

lemma days_before_month_first: "days_before_month y 1 = 0"
  by (simp add: days_before_month_def)

lemma days_in_month_bounds:
  assumes "1 \<le> m" "m \<le> 12"
  shows "28 \<le> days_in_month y m \<and> days_in_month y m \<le> 31"
proof -
  have "\<forall>k \<in> set month_numbers. 28 \<le> days_in_month y k \<and> days_in_month y k \<le> 31"
    by (simp add: month_numbers_def days_in_month_def month_lengths_def)
  with month_range [OF assms] show ?thesis by blast
qed

lemma days_before_month_step:
  assumes "1 \<le> m" "m \<le> 11"
  shows "days_before_month y (m + 1) = days_before_month y m + days_in_month y m"
proof -
  have "\<forall>k \<in> set (butlast month_numbers).
      days_before_month y (k + 1) = days_before_month y k + days_in_month y k"
    by (simp add: month_numbers_def days_before_month_def days_in_month_def month_lengths_def)
  moreover from assms have "m \<in> set month_numbers" "m \<noteq> 12"
    by (simp_all add: month_range)
  then have "m \<in> set (butlast month_numbers)" by (simp add: month_numbers_def)
  ultimately show ?thesis by blast
qed

lemma days_before_month_last: "days_before_month y 12 + days_in_month y 12 = year_length y"
  by (simp add: days_before_month_def days_in_month_def month_lengths_def year_length_def)

lemma days_before_year_next: "days_before_year (y + 1) = days_before_year y + year_length y"
  unfolding year_length_def by (rule days_before_year_step)

lemma days_before_month_mono:
  assumes "1 \<le> a" "a \<le> b" "b \<le> 12"
  shows "days_before_month y a \<le> days_before_month y b"
  using assms(2,1,3)
proof (induction b rule: int_ge_induct)
  case base
  show ?case by simp
next
  case (step i)
  then have "days_before_month y (i + 1) = days_before_month y i + days_in_month y i"
    by (intro days_before_month_step) simp_all
  moreover have "28 \<le> days_in_month y i" using step by (intro conjunct1 [OF days_in_month_bounds]) simp_all
  ultimately show ?case using step by simp
qed

lemma days_before_month_end:
  assumes "1 \<le> m" "m \<le> 12"
  shows "days_before_month y m + days_in_month y m \<le> year_length y"
proof (cases "m = 12")
  case True
  then show ?thesis by (simp add: days_before_month_last)
next
  case False
  with assms have "days_before_month y (m + 1) = days_before_month y m + days_in_month y m"
    by (intro days_before_month_step) simp_all
  moreover from assms False have "days_before_month y (m + 1) \<le> days_before_month y 12"
    by (intro days_before_month_mono) simp_all
  moreover have "0 \<le> days_in_month y 12" using days_in_month_bounds [of 12 y] by simp
  ultimately show ?thesis using days_before_month_last [of y] by linarith
qed

lemma find_month_spec:
  "1 \<le> m0 \<Longrightarrow> m0 \<le> 12 \<Longrightarrow> days_before_month y m0 < r \<Longrightarrow> r \<le> year_length y \<Longrightarrow>
   m0 \<le> find_month y r m0 \<and> find_month y r m0 \<le> 12
   \<and> days_before_month y (find_month y r m0) < r
   \<and> r \<le> days_before_month y (find_month y r m0) + days_in_month y (find_month y r m0)"
proof (induction y r m0 rule: find_month.induct)
  case (1 y r m)
  show ?case
  proof (cases "m < 12 \<and> days_before_month y (m + 1) < r")
    case True
    then have eq: "find_month y r m = find_month y r (m + 1)"
      by (subst find_month.simps) simp
    from True 1 have "m + 1 \<le> find_month y r (m + 1) \<and> find_month y r (m + 1) \<le> 12
       \<and> days_before_month y (find_month y r (m + 1)) < r
       \<and> r \<le> days_before_month y (find_month y r (m + 1))
             + days_in_month y (find_month y r (m + 1))"
      by simp
    then show ?thesis unfolding eq by simp
  next
    case False
    then have eq: "find_month y r m = m" by (subst find_month.simps) (simp only: if_False)
    have "r \<le> days_before_month y m + days_in_month y m"
    proof (cases "m = 12")
      case True
      with 1 show ?thesis by (simp add: days_before_month_last)
    next
      case neq: False
      with 1 have "days_before_month y (m + 1) = days_before_month y m + days_in_month y m"
        by (intro days_before_month_step) simp_all
      with False neq 1 show ?thesis by auto
    qed
    with 1 show ?thesis unfolding eq by simp
  qed
qed

lemma days_before_year_first: "days_before_year 1 = 0"
  by (simp add: days_before_year_def)

lemma days_before_year_max: "days_before_year 10000 = max_ordinal"
  by (simp add: days_before_year_def max_ordinal_def)

lemma fromordinal_valid:
  assumes "1 \<le> n" "n \<le> max_ordinal"
  shows "valid_date (fromordinal n)" and "toordinal (fromordinal n) = n"
proof -
  define y where "y = find_year n ((n - 1) div 366 + 1)"
  define r where "r = n - days_before_year y"
  define m where "m = find_month y r 1"
  have fo: "fromordinal n = Date y m (r - days_before_month y m)"
    by (simp add: fromordinal_def Let_def y_def r_def m_def)
  have ys: "(n - 1) div 366 + 1 \<le> y" "days_before_year y < n" "n \<le> days_before_year (y + 1)"
    unfolding y_def using find_year_spec [OF year_estimate(2) [OF assms(1)]] by blast+
  with year_estimate(1) [OF assms(1)] have y1: "1 \<le> y" by linarith
  have y2: "y \<le> 9999"
  proof (rule ccontr)
    assume "\<not> y \<le> 9999"
    then have "10000 \<le> y" by simp
    then have "days_before_year 10000 \<le> days_before_year y" by (rule days_before_year_mono)
    with ys(2) assms(2) show False by (simp add: days_before_year_max)
  qed
  from ys have r: "1 \<le> r" "r \<le> year_length y"
    by (simp_all add: r_def days_before_year_next)
  have "1 \<le> m \<and> m \<le> 12 \<and> days_before_month y m < r
      \<and> r \<le> days_before_month y m + days_in_month y m"
    unfolding m_def using r by (intro find_month_spec) (simp_all add: days_before_month_first)
  with y1 y2 show "valid_date (fromordinal n)" by (simp add: fo valid_date_def)
  show "toordinal (fromordinal n) = n" by (simp add: fo toordinal_def r_def)
qed

lemma toordinal_bounds:
  assumes "valid_date d"
  shows "days_before_year (year d) < toordinal d"
    and "toordinal d \<le> days_before_year (year d + 1)"
    and "1 \<le> toordinal d" and "toordinal d \<le> max_ordinal"
proof -
  from assms have v: "1 \<le> year d" "year d \<le> 9999" "1 \<le> month d" "month d \<le> 12"
      "1 \<le> day d" "day d \<le> days_in_month (year d) (month d)"
    by (simp_all add: valid_date_def)
  have "0 \<le> days_before_month (year d) (month d)"
    using days_before_month_mono [of 1 "month d" "year d"] v by (simp add: days_before_month_first)
  with v show a: "days_before_year (year d) < toordinal d" by (simp add: toordinal_def)
  have "days_before_month (year d) (month d) + days_in_month (year d) (month d)
      \<le> year_length (year d)"
    using v by (intro days_before_month_end) simp_all
  with v show b: "toordinal d \<le> days_before_year (year d + 1)"
    by (simp add: toordinal_def days_before_year_next)
  have "days_before_year 1 \<le> days_before_year (year d)"
    using v by (intro days_before_year_mono) simp
  with a show "1 \<le> toordinal d" by (simp add: days_before_year_first)
  have "days_before_year (year d + 1) \<le> days_before_year 10000"
    using v by (intro days_before_year_mono) simp
  with b show "toordinal d \<le> max_ordinal" by (simp add: days_before_year_max)
qed



subsection \<open>Date arithmetic\<close>

lemma date_new_valid: "date_new y m k = Inr d \<Longrightarrow> valid_date d"
  by (auto simp add: date_new_def split: if_splits)

lemma parse_ymd_valid: "parse_ymd s = Inr d \<Longrightarrow> valid_date d"
  by (cases s rule: parse_ymd.cases)
    (auto simp add: date_new_valid split: if_splits option.splits prod.splits)

lemma add_days_in_range:
  assumes "valid_date d" "1 \<le> toordinal d + n" "toordinal d + n \<le> max_ordinal"
  shows "add_days d n = Inr (fromordinal (toordinal d + n))"
    and "valid_date (fromordinal (toordinal d + n))"
    and "toordinal (fromordinal (toordinal d + n)) = toordinal d + n"
  using assms by (simp_all add: add_days_def Let_def fromordinal_valid)

lemma add_days_overflow:
  "toordinal d + n < 1 \<or> max_ordinal < toordinal d + n \<Longrightarrow> add_days d n = Inl OverflowError"
  by (auto simp add: add_days_def Let_def)

subsection \<open>The pay period\<close>

text \<open>Claim C1, as amended. For every stored pay schedule whose \<open>next_payday\<close> parses to a date
  on or after 0001-01-15 (ordinal 15), \<open>current_pay_period\<close> returns a period whose end is
  the day before the next payday and whose start is 13 days before that end: 14 consecutive
  days ending the day before the next payday.\<close>

theorem current_pay_period_span:
  assumes "parse_ymd (ps_next_payday schedule_row) = Inr np"
    and "15 \<le> toordinal np"
  shows "\<exists>period_start period_end.
           current_pay_period schedule_row = Inr (period_start, period_end, np)
           \<and> valid_date period_start \<and> valid_date period_end
           \<and> toordinal period_end = toordinal np - 1
           \<and> toordinal period_start = toordinal period_end - 13
           \<and> days_between period_end period_start + 1 = 14"
proof -
  from assms(1) have v: "valid_date np" by (rule parse_ymd_valid)
  have hi: "toordinal np \<le> max_ordinal" using v by (rule toordinal_bounds(4))
  define pe where "pe = fromordinal (toordinal np + - 1)"
  have pe: "add_days np (- 1) = Inr pe" "valid_date pe" "toordinal pe = toordinal np + - 1"
    unfolding pe_def using v assms(2) hi by (intro add_days_in_range; simp)+
  define ps where "ps = fromordinal (toordinal pe + - 13)"
  have ps: "add_days pe (- 13) = Inr ps" "valid_date ps" "toordinal ps = toordinal pe + - 13"
    unfolding ps_def using pe(2,3) assms(2) hi by (intro add_days_in_range; simp)+
  have "current_pay_period schedule_row = Inr (ps, pe, np)"
    by (simp add: current_pay_period_def bindE_def assms(1) pe(1) ps(1))
  with pe ps show ?thesis by (simp add: days_between_def)
qed

theorem current_pay_period_span_witness:
  "\<exists>period_start period_end.
     current_pay_period \<lparr>ps_user_id = 1, ps_frequency = ''biweekly'',
        ps_next_payday = ''2024-01-15'', ps_typical_net_pay_cents = 100000\<rparr>
       = Inr (period_start, period_end, Date 2024 1 15)
     \<and> valid_date period_start \<and> valid_date period_end
     \<and> toordinal period_end = toordinal (Date 2024 1 15) - 1
     \<and> toordinal period_start = toordinal period_end - 13
     \<and> days_between period_end period_start + 1 = 14"
proof -
  have a: "parse_ymd (ps_next_payday \<lparr>ps_user_id = 1, ps_frequency = ''biweekly'',
        ps_next_payday = ''2024-01-15'', ps_typical_net_pay_cents = 100000\<rparr>)
      = Inr (Date 2024 1 15)"
    by code_simp
  have b: "15 \<le> toordinal (Date 2024 1 15)" by code_simp
  from current_pay_period_span [OF a b] show ?thesis .
qed

text \<open>The claim as it was stated fails for a next payday in the first fourteen days of the
  year 1: the text is accepted by \<open>parse_ymd\<close> (and so by the setup form), and the period
  cannot be computed.\<close>

theorem current_pay_period_counterexample:
  "parse_ymd ''0001-01-01'' = Inr (Date 1 1 1)
   \<and> current_pay_period \<lparr>ps_user_id = 1, ps_frequency = ''biweekly'',
        ps_next_payday = ''0001-01-01'', ps_typical_net_pay_cents = 100000\<rparr>
     = Inl OverflowError"
  by code_simp

subsection \<open>The daily spend limit\<close>

text \<open>Claim C10. For every end of the pay period and every date of today, the divisor of the
  daily limit is at least 1, so the division raises nothing, also when today is at or past
  the end of the period.\<close>

theorem days_left_positive:
  "1 \<le> days_left period_end today
   \<and> floor_div remaining (days_left period_end today)
       = Inr (remaining div days_left period_end today)"
  by (simp add: days_left_def floor_div_def Let_def)

theorem days_left_positive_witness:
  "1 \<le> days_left (Date 2024 1 14) (Date 2024 3 1)
   \<and> floor_div 5000 (days_left (Date 2024 1 14) (Date 2024 3 1))
       = Inr (5000 div days_left (Date 2024 1 14) (Date 2024 3 1))
   \<and> days_left (Date 2024 1 14) (Date 2024 3 1) = 1"
proof -
  have "days_left (Date 2024 1 14) (Date 2024 3 1) = 1" by code_simp
  with days_left_positive [of "Date 2024 1 14" "Date 2024 3 1" 5000] show ?thesis by simp
qed

subsection \<open>The dashboard\<close>

lemma days_left_pos: "1 \<le> days_left period_end today"
  by (simp add: days_left_def Let_def)

lemma dashboard_no_login:
  "session = None \<or> session = Some 0 \<Longrightarrow>
   dashboard d session today
     = Inr \<lparr>new_db = d, new_session = session, flashed = [''Please log in first.''],
            answer = Redirect ''login''\<rparr>"
  by (auto simp add: dashboard_def with_login_def)

lemma dashboard_schedule_fails:
  "user_id \<noteq> 0 \<Longrightarrow> get_schedule d user_id = Inl e \<Longrightarrow>
   dashboard d (Some user_id) today = Inl e"
  by (simp add: dashboard_def with_login_def bindE_def)

lemma dashboard_no_schedule:
  "user_id \<noteq> 0 \<Longrightarrow> get_schedule d user_id = Inr None \<Longrightarrow>
   dashboard d (Some user_id) today
     = Inr \<lparr>new_db = d, new_session = Some user_id, flashed = [], answer = Redirect ''setup''\<rparr>"
  by (simp add: dashboard_def with_login_def bindE_def)

lemma dashboard_period_fails:
  "user_id \<noteq> 0 \<Longrightarrow> get_schedule d user_id = Inr (Some schedule) \<Longrightarrow>
   current_pay_period schedule = Inl e \<Longrightarrow> dashboard d (Some user_id) today = Inl e"
  by (simp add: dashboard_def with_login_def bindE_def)

lemma dashboard_remaining_fails:
  "user_id \<noteq> 0 \<Longrightarrow> get_schedule d user_id = Inr (Some schedule) \<Longrightarrow>
   current_pay_period schedule = Inr (period_start, period_end, next_payday) \<Longrightarrow>
   period_remaining d user_id schedule period_start period_end = Inl e \<Longrightarrow>
   dashboard d (Some user_id) today = Inl e"
  by (simp add: dashboard_def with_login_def bindE_def)

lemma dashboard_bills_fail:
  "user_id \<noteq> 0 \<Longrightarrow> get_schedule d user_id = Inr (Some schedule) \<Longrightarrow>
   current_pay_period schedule = Inr (period_start, period_end, next_payday) \<Longrightarrow>
   period_remaining d user_id schedule period_start period_end
     = Inr (income, expense, remaining) \<Longrightarrow>
   bills_loop today next_payday (active_bills d user_id) ([], 0) = Inl e \<Longrightarrow>
   dashboard d (Some user_id) today = Inl e"
  by (simp add: dashboard_def with_login_def bindE_def)

lemma dashboard_top_fails:
  "user_id \<noteq> 0 \<Longrightarrow> get_schedule d user_id = Inr (Some schedule) \<Longrightarrow>
   current_pay_period schedule = Inr (period_start, period_end, next_payday) \<Longrightarrow>
   period_remaining d user_id schedule period_start period_end
     = Inr (income, expense, remaining) \<Longrightarrow>
   bills_loop today next_payday (active_bills d user_id) ([], 0)
     = Inr (due_before, total_due_cents) \<Longrightarrow>
   category_rows d user_id period_start period_end = Inl e \<Longrightarrow>
   dashboard d (Some user_id) today = Inl e"
  using days_left_pos [of period_end today]
  by (simp add: dashboard_def with_login_def bindE_def floor_div_def)

lemma dashboard_context_fails:
  "user_id \<noteq> 0 \<Longrightarrow> get_schedule d user_id = Inr (Some schedule) \<Longrightarrow>
   current_pay_period schedule = Inr (period_start, period_end, next_payday) \<Longrightarrow>
   period_remaining d user_id schedule period_start period_end
     = Inr (income, expense, remaining) \<Longrightarrow>
   bills_loop today next_payday (active_bills d user_id) ([], 0)
     = Inr (due_before, total_due_cents) \<Longrightarrow>
   category_rows d user_id period_start period_end = Inr top_rows \<Longrightarrow>
   dashboard_context (period_start, period_end, next_payday)
     (ps_typical_net_pay_cents schedule) (income, expense, remaining)
     (remaining div days_left period_end today) (due_before, total_due_cents) = Inl e \<Longrightarrow>
   dashboard d (Some user_id) today = Inl e"
  using days_left_pos [of period_end today]
  by (simp add: dashboard_def with_login_def bindE_def floor_div_def)

lemma dashboard_renders:
  "user_id \<noteq> 0 \<Longrightarrow> get_schedule d user_id = Inr (Some schedule) \<Longrightarrow>
   current_pay_period schedule = Inr (period_start, period_end, next_payday) \<Longrightarrow>
   period_remaining d user_id schedule period_start period_end
     = Inr (income, expense, remaining) \<Longrightarrow>
   bills_loop today next_payday (active_bills d user_id) ([], 0)
     = Inr (due_before, total_due_cents) \<Longrightarrow>
   category_rows d user_id period_start period_end = Inr top_rows \<Longrightarrow>
   dashboard_context (period_start, period_end, next_payday)
     (ps_typical_net_pay_cents schedule) (income, expense, remaining)
     (remaining div days_left period_end today) (due_before, total_due_cents) = Inr ctx \<Longrightarrow>
   dashboard d (Some user_id) today
     = Inr \<lparr>new_db = d, new_session = Some user_id, flashed = [],
            answer = Render_dashboard ctx\<rparr>"
  using days_left_pos [of period_end today]
  by (simp add: dashboard_def with_login_def bindE_def floor_div_def)

lemma dashboard_context_written:
  assumes "dashboard_context (period_start, period_end, next_payday) typical
      (income, expense, remaining) daily_limit (due_before, total_due_cents) = Inr ctx"
  shows "money_from_cents remaining = Inr (ctx_remaining ctx)
    \<and> money_from_cents daily_limit = Inr (ctx_daily_limit ctx)
    \<and> ctx_bills_due ctx = due_before
    \<and> money_from_cents total_due_cents = Inr (ctx_bills_total ctx)"
  using assms
  by (auto simp add: dashboard_context_def bindE_def split: sum.splits)

lemma dashboard_context_ok:
  assumes "money_from_cents typical = Inr t1" "money_from_cents income = Inr t2"
    "money_from_cents expense = Inr t3" "money_from_cents remaining = Inr t4"
    "money_from_cents daily_limit = Inr t5" "money_from_cents total_due_cents = Inr t6"
    "money_from_cents (remaining - total_due_cents) = Inr t7"
  shows "dashboard_context (period_start, period_end, next_payday) typical
      (income, expense, remaining) daily_limit (due_before, total_due_cents)
    = Inr \<lparr>ctx_period_start = ymd period_start, ctx_period_end = ymd period_end,
           ctx_next_payday = ymd next_payday, ctx_typical = t1, ctx_income = t2,
           ctx_expense = t3, ctx_remaining = t4, ctx_daily_limit = t5,
           ctx_bills_due = due_before, ctx_bills_total = t6, ctx_after_bills = t7\<rparr>"
  using assms by (simp add: dashboard_context_def bindE_def)

lemma days_left_max: "days_left period_end today = max 1 (toordinal period_end - toordinal today + 1)"
  by (simp add: days_left_def days_between_def Let_def max_def)

lemma dashboard_rendered:
  assumes "dashboard d session today = Inr rep"
    and "answer rep = Render_dashboard ctx"
  shows "\<exists>user_id schedule period_start period_end next_payday income expense remaining
            due_before total_due_cents.
           session = Some user_id \<and> user_id \<noteq> 0
           \<and> get_schedule d user_id = Inr (Some schedule)
           \<and> current_pay_period schedule = Inr (period_start, period_end, next_payday)
           \<and> period_remaining d user_id schedule period_start period_end
               = Inr (income, expense, remaining)
           \<and> bills_loop today next_payday (active_bills d user_id) ([], 0)
               = Inr (due_before, total_due_cents)
           \<and> money_from_cents remaining = Inr (ctx_remaining ctx)
           \<and> money_from_cents (remaining div days_left period_end today)
               = Inr (ctx_daily_limit ctx)
           \<and> ctx_bills_due ctx = due_before
           \<and> money_from_cents total_due_cents = Inr (ctx_bills_total ctx)"
proof -
  have "\<not> (session = None \<or> session = Some 0)"
  proof
    assume "session = None \<or> session = Some 0"
    from dashboard_no_login [OF this, of d today] assms show False by auto
  qed
  then obtain user_id where u: "session = Some user_id" "user_id \<noteq> 0"
    by (cases session) auto
  obtain schedule where s: "get_schedule d user_id = Inr (Some schedule)"
  proof (cases "get_schedule d user_id")
    case (Inl e)
    from dashboard_schedule_fails [OF u(2) Inl, of today] assms u show ?thesis by simp
  next
    case (Inr row)
    show ?thesis
    proof (cases row)
      case None
      with Inr have "get_schedule d user_id = Inr None" by simp
      from dashboard_no_schedule [OF u(2) this, of today] assms u show ?thesis by auto
    next
      case (Some a)
      with Inr show ?thesis by (intro that [of a]) simp
    qed
  qed
  obtain period_start period_end next_payday where
    p: "current_pay_period schedule = Inr (period_start, period_end, next_payday)"
  proof (cases "current_pay_period schedule")
    case (Inl e)
    from dashboard_period_fails [OF u(2) s Inl, of today] assms u show ?thesis by simp
  next
    case (Inr a)
    then show ?thesis by (cases a) (auto intro: that)
  qed
  obtain income expense remaining where
    q: "period_remaining d user_id schedule period_start period_end
        = Inr (income, expense, remaining)"
  proof (cases "period_remaining d user_id schedule period_start period_end")
    case (Inl e)
    from dashboard_remaining_fails [OF u(2) s p Inl, of today] assms u show ?thesis by simp
  next
    case (Inr a)
    then show ?thesis by (cases a) (auto intro: that)
  qed
  obtain due_before total_due_cents where
    b: "bills_loop today next_payday (active_bills d user_id) ([], 0)
        = Inr (due_before, total_due_cents)"
  proof (cases "bills_loop today next_payday (active_bills d user_id) ([], 0)")
    case (Inl e)
    from dashboard_bills_fail [OF u(2) s p q Inl] assms u show ?thesis by simp
  next
    case (Inr a)
    then show ?thesis by (cases a) (auto intro: that)
  qed
  obtain top_rows where t: "category_rows d user_id period_start period_end = Inr top_rows"
  proof (cases "category_rows d user_id period_start period_end")
    case (Inl e)
    from dashboard_top_fails [OF u(2) s p q b Inl] assms u show ?thesis by simp
  next
    case (Inr a)
    then show ?thesis by (rule that)
  qed
  obtain c where c: "dashboard_context (period_start, period_end, next_payday)
     (ps_typical_net_pay_cents schedule) (income, expense, remaining)
     (remaining div days_left period_end today) (due_before, total_due_cents) = Inr c"
  proof (cases "dashboard_context (period_start, period_end, next_payday)
     (ps_typical_net_pay_cents schedule) (income, expense, remaining)
     (remaining div days_left period_end today) (due_before, total_due_cents)")
    case (Inl e)
    from dashboard_context_fails [OF u(2) s p q b t Inl] assms u show ?thesis by simp
  next
    case (Inr a)
    then show ?thesis by (rule that)
  qed
  from dashboard_renders [OF u(2) s p q b t c] assms u have "c = ctx" by auto
  with dashboard_context_written [OF c]
  have "money_from_cents remaining = Inr (ctx_remaining ctx)
      \<and> money_from_cents (remaining div days_left period_end today) = Inr (ctx_daily_limit ctx)
      \<and> ctx_bills_due ctx = due_before
      \<and> money_from_cents total_due_cents = Inr (ctx_bills_total ctx)"
    by simp
  with u s p q b show ?thesis by blast
qed

text \<open>Claim C3. Whenever the dashboard is rendered, its daily spending allowance is the
  remaining amount floor-divided by the number of days from today through the end of the
  pay period inclusive, that number being raised to 1 when it is smaller: the page shows
  what \<open>money_from_cents\<close> writes for that quotient.\<close>

theorem dashboard_daily_limit:
  assumes "dashboard d session today = Inr rep"
    and "answer rep = Render_dashboard ctx"
  shows "\<exists>user_id schedule period_start period_end next_payday income expense remaining.
           session = Some user_id
           \<and> get_schedule d user_id = Inr (Some schedule)
           \<and> current_pay_period schedule = Inr (period_start, period_end, next_payday)
           \<and> period_remaining d user_id schedule period_start period_end
               = Inr (income, expense, remaining)
           \<and> money_from_cents remaining = Inr (ctx_remaining ctx)
           \<and> money_from_cents
                 (remaining div max 1 (toordinal period_end - toordinal today + 1))
               = Inr (ctx_daily_limit ctx)"
  using dashboard_rendered [OF assms] unfolding days_left_max by blast

subsection \<open>A worked example\<close>

lemma demo_get_schedule: "get_schedule demo_db 1 = Inr (Some demo_schedule)"
  by (simp add: get_schedule_def bind_ints_def sql_integer_def bindE_def demo_db_def
      demo_schedule_def)

lemma demo_period:
  "current_pay_period demo_schedule = Inr (Date 2024 1 1, Date 2024 1 14, Date 2024 1 15)"
  by code_simp

lemmas eval_text = money_from_cents_def py_str_def format_02d_def int_max_str_digits_def
  ymd_def zero_pad_def show_nat.simps digit_char_def digit_chars_def bindE_def Let_def

lemmas eval_date = toordinal_def fromordinal_def find_year.simps find_month.simps
  days_before_year_def days_before_month_def days_in_month_def month_lengths_def is_leap_def
  valid_date_def date_new_def replace_day_def add_days_def max_ordinal_def days_between_def
  date_less_def Let_def bindE_def

lemma demo_ymd:
  "ymd (Date 2024 1 1) = ''2024-01-01''"
  "ymd (Date 2024 1 14) = ''2024-01-14''"
  "ymd (Date 2024 1 15) = ''2024-01-15''"
  "ymd (Date 2024 1 12) = ''2024-01-12''"
  by (simp_all add: eval_text)

lemma demo_rows:
  "period_rows demo_db 1 (Date 2024 1 1) (Date 2024 1 14)
     = Inr [(''income'', 5000), (''expense'', 2500)]"
  by (simp add: period_rows_def demo_ymd demo_db_def sql_between_def sql_integer_def bindE_def)

lemma demo_remaining:
  "period_remaining demo_db 1 demo_schedule (Date 2024 1 1) (Date 2024 1 14)
     = Inr (5000, 2500, 102500)"
  by (simp add: period_remaining_def demo_rows fill_totals_def dict_get_def bindE_def
      demo_schedule_def)

lemma demo_category_rows:
  "category_rows demo_db 1 (Date 2024 1 1) (Date 2024 1 14) = Inr [(''Coffee'', 2500)]"
  by (simp add: category_rows_def demo_ymd demo_db_def sql_between_def sql_integer_def
      bindE_def)

lemma demo_money:
  "money_from_cents 100000 = Inr ''1000.00''"
  "money_from_cents 5000 = Inr ''50.00''"
  "money_from_cents 2500 = Inr ''25.00''"
  "money_from_cents 102500 = Inr ''1025.00''"
  "money_from_cents 20500 = Inr ''205.00''"
  "money_from_cents 3000 = Inr ''30.00''"
  "money_from_cents 99500 = Inr ''995.00''"
  by (simp_all add: eval_text)

lemma demo_bills:
  "bills_loop (Date 2024 1 10) (Date 2024 1 15) (active_bills demo_db 1) ([], 0)
     = Inr ([\<lparr>di_name = ''Phone'', di_amount = ''30.00'', di_due = ''2024-01-12''\<rparr>], 3000)"
  by code_simp

lemma demo_days_left: "days_left (Date 2024 1 14) (Date 2024 1 10) = 5"
  by (simp add: days_left_def eval_date)

lemma demo_context:
  "dashboard_context (Date 2024 1 1, Date 2024 1 14, Date 2024 1 15) 100000
     (5000, 2500, 102500) 20500
     ([\<lparr>di_name = ''Phone'', di_amount = ''30.00'', di_due = ''2024-01-12''\<rparr>], 3000)
   = Inr demo_ctx"
  using dashboard_context_ok [of 100000 "''1000.00''" 5000 "''50.00''" 2500 "''25.00''"
      102500 "''1025.00''" 20500 "''205.00''" 3000 "''30.00''" "''995.00''"]
  by (simp add: demo_money demo_ymd demo_ctx_def)

lemma demo_dashboard:
  "dashboard demo_db (Some 1) (Date 2024 1 10)
     = Inr \<lparr>new_db = demo_db, new_session = Some 1, flashed = [],
            answer = Render_dashboard demo_ctx\<rparr>"
proof -
  have u: "(1::int) \<noteq> 0" by simp
  have c: "dashboard_context (Date 2024 1 1, Date 2024 1 14, Date 2024 1 15)
      (ps_typical_net_pay_cents demo_schedule) (5000, 2500, 102500)
      (102500 div days_left (Date 2024 1 14) (Date 2024 1 10))
      ([\<lparr>di_name = ''Phone'', di_amount = ''30.00'', di_due = ''2024-01-12''\<rparr>], 3000)
    = Inr demo_ctx"
    by (simp add: demo_days_left demo_schedule_def demo_context)
  from u demo_get_schedule demo_period demo_remaining demo_bills demo_category_rows c
  show ?thesis by (rule dashboard_renders)
qed

theorem dashboard_daily_limit_witness:
  "\<exists>user_id schedule period_start period_end next_payday income expense remaining.
     Some 1 = Some user_id
     \<and> get_schedule demo_db user_id = Inr (Some schedule)
     \<and> current_pay_period schedule = Inr (period_start, period_end, next_payday)
     \<and> period_remaining demo_db user_id schedule period_start period_end
         = Inr (income, expense, remaining)
     \<and> money_from_cents remaining = Inr (ctx_remaining demo_ctx)
     \<and> money_from_cents
           (remaining div max 1 (toordinal period_end - toordinal (Date 2024 1 10) + 1))
         = Inr (ctx_daily_limit demo_ctx)"
proof -
  have "answer \<lparr>new_db = demo_db, new_session = Some 1, flashed = [],
            answer = Render_dashboard demo_ctx\<rparr> = Render_dashboard demo_ctx"
    by simp
  from dashboard_daily_limit [OF demo_dashboard this] show ?thesis .
qed

subsection \<open>Bills\<close>

lemma cents_from_money_str_error: "cents_from_money_str x = Inl e \<Longrightarrow> e = ValueError"
  by (auto simp add: cents_from_money_str_def int_or_raise_def bindE_def Let_def
      split: if_splits option.splits prod.splits)

lemma with_login_body:
  "user_id \<noteq> 0 \<Longrightarrow> with_login d (Some user_id) body = body user_id"
  by (simp add: with_login_def)

lemmas eval_int = py_int_def parse_unsigned_def int_max_str_digits_def skip_spaces_def
  is_c_space_def strip_def is_space_def is_digit_def digit_chars_def digit_val_def form_get_def
  cents_from_money_str_def int_or_raise_def split_dot_def bindE_def Let_def

lemma due_day_bound: "1 \<le> k \<Longrightarrow> k \<le> 31 \<Longrightarrow> sql_integer k"
  by (simp add: sql_integer_def)

lemma bills_post_outcome:
  assumes "user_id \<noteq> 0" and "sql_integer user_id"
    and "user_id \<in> set (map u_id (users d))"
    and "name = strip (form_get f ''name'' '''')"
    and "amount = strip (form_get f ''amount'' ''0'')"
    and "due_day = strip (form_get f ''due_day'' ''1'')"
  shows
    "(length (recurring_bills (db_after d (bills_post d (Some user_id) f)))
        = length (recurring_bills d) + 1
      \<longleftrightarrow> name \<noteq> [] \<and> (\<exists>k. py_int due_day = Some k \<and> 1 \<le> k \<and> k \<le> 31)
          \<and> (\<exists>c. cents_from_money_str amount = Inr c \<and> sql_integer c))
     \<and> (\<forall>k c. name \<noteq> [] \<and> py_int due_day = Some k \<and> 1 \<le> k \<and> k \<le> 31
            \<and> cents_from_money_str amount = Inr c \<and> sql_integer c
          \<longrightarrow> db_after d (bills_post d (Some user_id) f)
              = d\<lparr>recurring_bills := recurring_bills d @
                   [\<lparr>rb_user_id = user_id, rb_name = name, rb_amount_cents = c,
                     rb_due_day = k, rb_active = 1\<rparr>]\<rparr>)
     \<and> (name = [] \<or> \<not> (\<exists>k. py_int due_day = Some k \<and> 1 \<le> k \<and> k \<le> 31)
          \<longrightarrow> (\<exists>rep. bills_post d (Some user_id) f = Inr rep \<and> new_db rep = d
                \<and> flashed rep \<noteq> [] \<and> answer rep = Redirect ''bills''))
     \<and> (name \<noteq> [] \<and> (\<exists>k. py_int due_day = Some k \<and> 1 \<le> k \<and> k \<le> 31)
          \<and> \<not> (\<exists>c. cents_from_money_str amount = Inr c)
          \<longrightarrow> bills_post d (Some user_id) f = Inl ValueError
              \<and> db_after d (bills_post d (Some user_id) f) = d)
     \<and> (\<forall>c. name \<noteq> [] \<and> (\<exists>k. py_int due_day = Some k \<and> 1 \<le> k \<and> k \<le> 31)
            \<and> cents_from_money_str amount = Inr c \<and> \<not> sql_integer c
          \<longrightarrow> bills_post d (Some user_id) f = Inl OverflowError
              \<and> db_after d (bills_post d (Some user_id) f) = d)"
proof (cases "name = []")
  case True
  then have "bills_post d (Some user_id) f
      = Inr \<lparr>new_db = d, new_session = Some user_id, flashed = [''Bill name required.''],
             answer = Redirect ''bills''\<rparr>"
    using assms by (simp add: bills_post_def with_login_body)
  with True show ?thesis by (simp add: db_after_def)
next
  case name: False
  show ?thesis
  proof (cases "py_int due_day")
    case None
    then have "bills_post d (Some user_id) f
        = Inr \<lparr>new_db = d, new_session = Some user_id,
               flashed = [''Due day must be a number 1-31.''], answer = Redirect ''bills''\<rparr>"
      using assms name by (simp add: bills_post_def with_login_body)
    with None show ?thesis by (simp add: db_after_def)
  next
    case (Some k)
    show ?thesis
    proof (cases "k < 1 \<or> 31 < k")
      case True
      then have "bills_post d (Some user_id) f
          = Inr \<lparr>new_db = d, new_session = Some user_id,
                 flashed = [''Due day must be between 1 and 31.''], answer = Redirect ''bills''\<rparr>"
        using assms name Some by (simp add: bills_post_def with_login_body)
      with True Some show ?thesis by (auto simp add: db_after_def)
    next
      case range: False
      then have k: "sql_integer k" by (intro due_day_bound) simp_all
      show ?thesis
      proof (cases "cents_from_money_str amount")
        case (Inl e)
        then have "e = ValueError" by (rule cents_from_money_str_error)
        with Inl have "bills_post d (Some user_id) f = Inl ValueError"
          using assms name Some range by (simp add: bills_post_def with_login_body bindE_def)
        with Inl name Some range show ?thesis by (auto simp add: db_after_def)
      next
        case (Inr c)
        show ?thesis
        proof (cases "sql_integer c")
          case True
          with Inr k have "bills_post d (Some user_id) f
              = Inr \<lparr>new_db = d\<lparr>recurring_bills := recurring_bills d @
                        [\<lparr>rb_user_id = user_id, rb_name = name, rb_amount_cents = c,
                          rb_due_day = k, rb_active = 1\<rparr>]\<rparr>,
                     new_session = Some user_id, flashed = [''Bill added!''],
                     answer = Redirect ''bills''\<rparr>"
            using assms name Some range
            by (simp add: bills_post_def with_login_body bindE_def bind_ints_def)
          with Inr True name Some range show ?thesis by (auto simp add: db_after_def)
        next
          case False
          with Inr have "bills_post d (Some user_id) f = Inl OverflowError"
            using assms name Some range
            by (simp add: bills_post_def with_login_body bindE_def bind_ints_def)
          with Inr False name Some range show ?thesis by (auto simp add: db_after_def)
        qed
      qed
    qed
  qed
qed

text \<open>Claim C5, as amended. For every POST to the bills route by a logged-in user (the session
  holds the \<open>id\<close> of a row of \<open>users\<close>, within 64 bits), a row is added to
  \<open>recurring_bills\<close> if and only if the submitted name is not empty (after trimming), the
  submitted \<open>due_day\<close> parses as an integer between 1 and 31, and the submitted amount is
  accepted by \<open>cents_from_money_str\<close> with a number of cents that fits a signed integer of
  64 bits. When the name or the due day is refused, the store is unchanged and an error
  message is flashed; every added row has \<open>active = 1\<close> and the parsed due day. (When only
  the amount is refused, the handler raises \<^verbatim>\<open>ValueError\<close>, or \<^verbatim>\<open>OverflowError\<close> for a number
  of cents outside 64 bits, and the store is unchanged.)\<close>

theorem bills_post_inserts:
  assumes "user_id \<noteq> 0" and "- (2 ^ 63) \<le> user_id \<and> user_id < 2 ^ 63"
    and "user_id \<in> set (map u_id (users d))"
    and "name = strip (form_get f ''name'' '''')"
    and "amount = strip (form_get f ''amount'' ''0'')"
    and "due_day = strip (form_get f ''due_day'' ''1'')"
  shows
    "(length (recurring_bills (db_after d (bills_post d (Some user_id) f)))
        = length (recurring_bills d) + 1
      \<longleftrightarrow> name \<noteq> [] \<and> (\<exists>k. py_int due_day = Some k \<and> 1 \<le> k \<and> k \<le> 31)
          \<and> (\<exists>c. cents_from_money_str amount = Inr c \<and> - (2 ^ 63) \<le> c \<and> c < 2 ^ 63))
     \<and> (\<forall>k c. name \<noteq> [] \<and> py_int due_day = Some k \<and> 1 \<le> k \<and> k \<le> 31
            \<and> cents_from_money_str amount = Inr c
            \<and> - (2 ^ 63) \<le> c \<and> c < 2 ^ 63
          \<longrightarrow> db_after d (bills_post d (Some user_id) f)
              = d\<lparr>recurring_bills := recurring_bills d @
                   [\<lparr>rb_user_id = user_id, rb_name = name, rb_amount_cents = c,
                     rb_due_day = k, rb_active = 1\<rparr>]\<rparr>)
     \<and> (name = [] \<or> \<not> (\<exists>k. py_int due_day = Some k \<and> 1 \<le> k \<and> k \<le> 31)
          \<longrightarrow> (\<exists>rep. bills_post d (Some user_id) f = Inr rep \<and> new_db rep = d
                \<and> flashed rep \<noteq> [] \<and> answer rep = Redirect ''bills''))
     \<and> (name \<noteq> [] \<and> (\<exists>k. py_int due_day = Some k \<and> 1 \<le> k \<and> k \<le> 31)
          \<and> \<not> (\<exists>c. cents_from_money_str amount = Inr c)
          \<longrightarrow> bills_post d (Some user_id) f = Inl ValueError
              \<and> db_after d (bills_post d (Some user_id) f) = d)
     \<and> (\<forall>c. name \<noteq> [] \<and> (\<exists>k. py_int due_day = Some k \<and> 1 \<le> k \<and> k \<le> 31)
            \<and> cents_from_money_str amount = Inr c
            \<and> \<not> (- (2 ^ 63) \<le> c \<and> c < 2 ^ 63)
          \<longrightarrow> bills_post d (Some user_id) f = Inl OverflowError
              \<and> db_after d (bills_post d (Some user_id) f) = d)"
proof -
  from assms(2) have u: "sql_integer user_id" by (simp add: sql_integer_def)
  from bills_post_outcome [OF assms(1) u assms(3-), unfolded sql_integer_def]
  show ?thesis .
qed

lemma demo_bill_form_fields:
  "strip (form_get demo_bill_form ''name'' '''') = ''Internet''"
  "py_int (strip (form_get demo_bill_form ''due_day'' ''1'')) = Some 28"
  "cents_from_money_str (strip (form_get demo_bill_form ''amount'' ''0'')) = Inr 4550"
  "sql_integer 1" "sql_integer 4550" "1 \<in> set (map u_id (users demo_db))"
  by (simp_all add: demo_bill_form_def eval_int sql_integer_def demo_db_def)

theorem bills_post_inserts_witness:
  "db_after demo_db (bills_post demo_db (Some 1) demo_bill_form)
     = demo_db\<lparr>recurring_bills := recurring_bills demo_db @
         [\<lparr>rb_user_id = 1, rb_name = ''Internet'', rb_amount_cents = 4550, rb_due_day = 28,
           rb_active = 1\<rparr>]\<rparr>"
proof -
  have u: "(1::int) \<noteq> 0" by simp
  have b: "- (2 ^ 63) \<le> (1::int) \<and> (1::int) < 2 ^ 63" by simp
  from bills_post_inserts [OF u b demo_bill_form_fields(6) refl refl refl,
      where f = demo_bill_form]
  show ?thesis by (simp add: demo_bill_form_fields)
qed

text \<open>The claim as it was stated fails when the amount is not a number: the name is not empty
  and the due day is 1, yet no row is added, the handler raising \<^verbatim>\<open>ValueError\<close>.\<close>

theorem bills_post_counterexample:
  "strip (form_get bad_amount_form ''name'' '''') \<noteq> []
   \<and> py_int (strip (form_get bad_amount_form ''due_day'' ''1'')) = Some 1
   \<and> bills_post demo_db (Some 1) bad_amount_form = Inl ValueError
   \<and> db_after demo_db (bills_post demo_db (Some 1) bad_amount_form) = demo_db"
  by (simp add: bad_amount_form_def bills_post_def with_login_def db_after_def eval_int)

text \<open>Two more refusals of an amount: a number of cents that does not fit a signed integer
  of 64 bits, which \<^verbatim>\<open>db.execute\<close> refuses to bind, and cents that begin with a separator
  that \<^verbatim>\<open>int\<close> does not skip.\<close>

lemma bills_post_overflow:
  "cents_from_money_str (strip (form_get big_amount_form ''amount'' ''0''))
     = Inr 9223372036854775808
   \<and> bills_post demo_db (Some 1) big_amount_form = Inl OverflowError"
  by (simp add: big_amount_form_def bills_post_def with_login_def eval_int bind_ints_def
      sql_integer_def)

lemma cents_separator_refused:
  "cents_from_money_str [CHR ''7'', CHR ''.'', CHR 0x1C, CHR ''5''] = Inl ValueError"
  by (simp add: eval_int)

subsection \<open>Signup\<close>

lemma find_append_new:
  "\<forall>x \<in> set xs. \<not> P x \<Longrightarrow> P y \<Longrightarrow> find P (xs @ [y]) = Some y"
  by (induction xs) simp_all

text \<open>Claim C8. For every signup POST whose email (trimmed and lower-cased) and password are
  not empty, a user row is created if and only if no user has that email. When the email
  is already registered, the users table is unchanged and the signup page is rendered
  again with an error message, the session being left as it was; otherwise the new row
  holds the email and the hash of the password, and the session is logged in as the new
  user.\<close>

theorem signup_post_unique_email:
  assumes "email = lower (strip (form_get f ''email'' ''''))"
    and "pw = form_get f ''password'' ''''"
    and "email \<noteq> []" and "pw \<noteq> []"
  shows
    "(length (users (db_after d (signup_post generate_password_hash d session f)))
        = length (users d) + 1
      \<longleftrightarrow> email \<notin> set (map u_email (users d)))
     \<and> (email \<in> set (map u_email (users d))
          \<longrightarrow> signup_post generate_password_hash d session f
              = Inr \<lparr>new_db = d, new_session = session,
                     flashed = [''That email is already registered.''],
                     answer = Render ''auth_signup.html''\<rparr>)
     \<and> (email \<notin> set (map u_email (users d))
          \<longrightarrow> (\<exists>new_id.
                signup_post generate_password_hash d session f
                  = Inr \<lparr>new_db = d\<lparr>users := users d @
                            [\<lparr>u_id = new_id, u_email = email,
                              u_password_hash = generate_password_hash pw\<rparr>]\<rparr>,
                         new_session = Some new_id, flashed = [],
                         answer = Redirect ''setup''\<rparr>))"
proof (cases "email \<in> set (map u_email (users d))")
  case True
  then have "signup_post generate_password_hash d session f
      = Inr \<lparr>new_db = d, new_session = session,
             flashed = [''That email is already registered.''],
             answer = Render ''auth_signup.html''\<rparr>"
    using assms by (simp add: signup_post_def insert_user_def Let_def)
  with True show ?thesis by (simp add: db_after_def)
next
  case False
  define new_id where "new_id = fold max (map u_id (users d)) 0 + 1"
  define row where "row = \<lparr>u_id = new_id, u_email = email,
      u_password_hash = generate_password_hash pw\<rparr>"
  from False have "\<forall>u \<in> set (users d). \<not> u_email u = email" by auto
  then have "find (\<lambda>u. u_email u = email) (users d @ [row]) = Some row"
    by (rule find_append_new) (simp add: row_def)
  with False have "signup_post generate_password_hash d session f
      = Inr \<lparr>new_db = d\<lparr>users := users d @ [row]\<rparr>, new_session = Some new_id, flashed = [],
             answer = Redirect ''setup''\<rparr>"
    using assms by (simp add: signup_post_def insert_user_def Let_def row_def new_id_def)
  with False show ?thesis by (auto simp add: db_after_def row_def)
qed

lemma demo_signup_email:
  "lower (strip (form_get demo_signup_form ''email'' '''')) = ''ana@example.org''"
  "lower (strip (form_get new_signup_form ''email'' '''')) = ''cy@example.org''"
  by (simp_all add: demo_signup_form_def new_signup_form_def form_get_def strip_def
      is_space_def lower_def lower_char_def upper_letters_def lower_letters_def)

theorem signup_post_unique_email_witness:
  "signup_post (\<lambda>pw. ''hash'') demo_db None demo_signup_form
     = Inr \<lparr>new_db = demo_db, new_session = None,
            flashed = [''That email is already registered.''],
            answer = Render ''auth_signup.html''\<rparr>
   \<and> length (users (db_after demo_db (signup_post (\<lambda>pw. ''hash'') demo_db None new_signup_form)))
       = length (users demo_db) + 1"
proof -
  have a: "[] \<noteq> ''ana@example.org''" "form_get demo_signup_form ''password'' '''' \<noteq> []"
    "[] \<noteq> ''cy@example.org''" "form_get new_signup_form ''password'' '''' \<noteq> []"
    by (simp_all add: demo_signup_form_def new_signup_form_def form_get_def)
  from signup_post_unique_email [OF refl refl, where f = demo_signup_form and d = demo_db
      and session = None and generate_password_hash = "\<lambda>pw. ''hash''"]
    signup_post_unique_email [OF refl refl, where f = new_signup_form and d = demo_db
      and session = None and generate_password_hash = "\<lambda>pw. ''hash''"]
  show ?thesis
    using a by (simp add: demo_signup_email demo_db_def)
qed

subsection \<open>Budgets\<close>

lemma upsert_budget_keys:
  "map budget_key (budgets (upsert_budget d user_id category limit_cents))
     = (if (user_id, category) \<in> set (map budget_key (budgets d))
        then map budget_key (budgets d)
        else map budget_key (budgets d) @ [(user_id, category)])"
proof -
  have "map budget_key (map (\<lambda>b. if b_user_id b = user_id \<and> b_category b = category
            then b\<lparr>b_limit_cents := limit_cents\<rparr> else b) xs) = map budget_key xs" for xs
    by (induction xs) (simp_all add: budget_key_def)
  then show ?thesis
    by (simp add: upsert_budget_def budget_key_def [abs_def])
qed

lemma upsert_budget_unique:
  "budgets_unique d \<Longrightarrow> budgets_unique (upsert_budget d user_id category limit_cents)"
  unfolding budgets_unique_def upsert_budget_keys by simp

lemma budgets_post_body:
  assumes "user_id \<noteq> 0"
  shows "budgets_post d (Some user_id) f
    = bindE (cents_from_money_str (strip (form_get f ''limit'' ''0''))) (\<lambda>limit_cents.
      bindE (bind_ints [user_id, limit_cents]) (\<lambda>bound.
        Inr \<lparr>new_db = upsert_budget d user_id (strip (form_get f ''category'' ''Other''))
                        limit_cents,
             new_session = Some user_id, flashed = [''Budget saved!''],
             answer = Redirect ''budgets''\<rparr>))"
  using assms by (simp add: budgets_post_def with_login_body Let_def)

lemma budgets_post_accepted:
  assumes "user_id \<noteq> 0" "sql_integer user_id"
    and "cents_from_money_str (strip (form_get f ''limit'' ''0'')) = Inr c" "sql_integer c"
  shows "budgets_post d (Some user_id) f
    = Inr \<lparr>new_db = upsert_budget d user_id (strip (form_get f ''category'' ''Other'')) c,
           new_session = Some user_id, flashed = [''Budget saved!''],
           answer = Redirect ''budgets''\<rparr>"
  using assms(2-) by (simp add: budgets_post_body [OF assms(1)] bindE_def bind_ints_def)

lemma budgets_post_refused:
  assumes "user_id \<noteq> 0"
    and "\<not> (\<exists>c. cents_from_money_str (strip (form_get f ''limit'' ''0'')) = Inr c
            \<and> sql_integer c)"
  shows "\<exists>e. budgets_post d (Some user_id) f = Inl e"
proof (cases "cents_from_money_str (strip (form_get f ''limit'' ''0''))")
  case (Inl e)
  then show ?thesis by (simp add: budgets_post_body [OF assms(1)] bindE_def)
next
  case (Inr c)
  with assms(2) have "\<not> sql_integer c" by simp
  with Inr show ?thesis
    by (simp add: budgets_post_body [OF assms(1)] bindE_def bind_ints_def)
qed

lemma budgets_post_after:
  "db_after d (budgets_post d session f) = d
   \<or> (\<exists>user_id category limit_cents.
        db_after d (budgets_post d session f) = upsert_budget d user_id category limit_cents)"
proof (cases "session = None \<or> session = Some 0")
  case True
  then show ?thesis by (auto simp add: budgets_post_def with_login_def db_after_def)
next
  case False
  then obtain user_id where u: "session = Some user_id" "user_id \<noteq> 0"
    by (cases session) auto
  show ?thesis
  proof (cases "budgets_post d (Some user_id) f")
    case (Inl e)
    with u show ?thesis by (simp add: db_after_def)
  next
    case (Inr rep)
    then obtain c where "rep = \<lparr>new_db = upsert_budget d user_id
          (strip (form_get f ''category'' ''Other'')) c,
        new_session = Some user_id, flashed = [''Budget saved!''],
        answer = Redirect ''budgets''\<rparr>"
      unfolding budgets_post_body [OF u(2)]
      by (auto simp add: bindE_def split: sum.splits)
    with Inr u show ?thesis by (auto simp add: db_after_def)
  qed
qed

lemma budgets_post_unique:
  "budgets_unique d \<Longrightarrow> budgets_unique (db_after d (budgets_post d session f))"
  using budgets_post_after [of d session f] by (auto simp add: upsert_budget_unique)

lemma budgets_posts_unique:
  "budgets_unique d \<Longrightarrow> budgets_unique (budgets_posts reqs d)"
  unfolding budgets_posts_def
  by (induction reqs arbitrary: d) (simp_all add: budgets_post_unique)

lemma upsert_budget_existing:
  assumes "(user_id, category) \<in> set (map budget_key (budgets d))"
  shows "budgets (upsert_budget d user_id category limit_cents)
    = map (\<lambda>b. if budget_key b = (user_id, category) then b\<lparr>b_limit_cents := limit_cents\<rparr>
                else b) (budgets d)"
  using assms by (simp add: upsert_budget_def budget_key_def [abs_def])

lemma budgets_post_outcome:
  assumes "budgets_unique d"
  shows
    "budgets_unique (budgets_posts reqs d)
     \<and> (\<forall>user_id category c.
           user_id \<noteq> 0 \<and> sql_integer user_id
           \<and> category = strip (form_get f ''category'' ''Other'')
           \<and> cents_from_money_str (strip (form_get f ''limit'' ''0'')) = Inr c
           \<and> sql_integer c
           \<and> (user_id, category) \<in> set (map budget_key (budgets d))
         \<longrightarrow> budgets (db_after d (budgets_post d (Some user_id) f))
             = map (\<lambda>b. if budget_key b = (user_id, category) then b\<lparr>b_limit_cents := c\<rparr>
                         else b) (budgets d)
           \<and> length (budgets (db_after d (budgets_post d (Some user_id) f)))
               = length (budgets d))
     \<and> (\<forall>user_id.
           user_id \<noteq> 0
           \<and> \<not> (\<exists>c. cents_from_money_str (strip (form_get f ''limit'' ''0'')) = Inr c
                   \<and> sql_integer c)
         \<longrightarrow> (\<exists>e. budgets_post d (Some user_id) f = Inl e)
           \<and> db_after d (budgets_post d (Some user_id) f) = d)"
proof (intro conjI allI impI)
  show "budgets_unique (budgets_posts reqs d)"
    using assms by (rule budgets_posts_unique)
next
  fix user_id category c
  assume a: "user_id \<noteq> 0 \<and> sql_integer user_id
      \<and> category = strip (form_get f ''category'' ''Other'')
      \<and> cents_from_money_str (strip (form_get f ''limit'' ''0'')) = Inr c
      \<and> sql_integer c
      \<and> (user_id, category) \<in> set (map budget_key (budgets d))"
  then have a1: "user_id \<noteq> 0" and a2: "sql_integer user_id"
    and a3: "category = strip (form_get f ''category'' ''Other'')"
    and a4: "cents_from_money_str (strip (form_get f ''limit'' ''0'')) = Inr c"
    and a5: "sql_integer c"
    and a6: "(user_id, category) \<in> set (map budget_key (budgets d))"
    by blast+
  have "db_after d (budgets_post d (Some user_id) f) = upsert_budget d user_id category c"
    by (simp add: budgets_post_accepted [OF a1 a2 a4 a5] db_after_def a3)
  with a6 show eq: "budgets (db_after d (budgets_post d (Some user_id) f))
      = map (\<lambda>b. if budget_key b = (user_id, category) then b\<lparr>b_limit_cents := c\<rparr>
                  else b) (budgets d)"
    by (simp only: upsert_budget_existing)
  show "length (budgets (db_after d (budgets_post d (Some user_id) f))) = length (budgets d)"
    unfolding eq by simp
next
  fix user_id :: int
  assume a: "user_id \<noteq> 0
      \<and> \<not> (\<exists>c. cents_from_money_str (strip (form_get f ''limit'' ''0'')) = Inr c
              \<and> sql_integer c)"
  then have a1: "user_id \<noteq> 0"
    and a2: "\<not> (\<exists>c. cents_from_money_str (strip (form_get f ''limit'' ''0'')) = Inr c
              \<and> sql_integer c)"
    by blast+
  from budgets_post_refused [OF a1 a2, of d]
  show e: "\<exists>e. budgets_post d (Some user_id) f = Inl e" .
  then show "db_after d (budgets_post d (Some user_id) f) = d"
    by (auto simp add: db_after_def)
qed

text \<open>Claim C6, as amended. After any sequence of POSTs to the budgets route, run from a store
  that has at most one budget row for every pair of a user and a category (the empty
  table is one), every such pair still has at most one row. A POST of a logged-in user
  (whose \<open>id\<close> is within 64 bits) for a pair that has a row, with a limit that
  \<open>cents_from_money_str\<close> accepts and that fits a signed integer of 64 bits, writes the new
  limit into that row and adds no row: the rows of the other pairs are left as they were.
  A POST with any other limit raises, and the store is left as it was.\<close>

theorem budgets_post_upsert:
  assumes "budgets_unique d"
  shows
    "budgets_unique (budgets_posts reqs d)
     \<and> (\<forall>user_id category c.
           user_id \<noteq> 0 \<and> (- (2 ^ 63) \<le> user_id \<and> user_id < 2 ^ 63)
           \<and> category = strip (form_get f ''category'' ''Other'')
           \<and> cents_from_money_str (strip (form_get f ''limit'' ''0'')) = Inr c
           \<and> (- (2 ^ 63) \<le> c \<and> c < 2 ^ 63)
           \<and> (user_id, category) \<in> set (map budget_key (budgets d))
         \<longrightarrow> budgets (db_after d (budgets_post d (Some user_id) f))
             = map (\<lambda>b. if budget_key b = (user_id, category) then b\<lparr>b_limit_cents := c\<rparr>
                         else b) (budgets d)
           \<and> length (budgets (db_after d (budgets_post d (Some user_id) f)))
               = length (budgets d))
     \<and> (\<forall>user_id.
           user_id \<noteq> 0
           \<and> \<not> (\<exists>c. cents_from_money_str (strip (form_get f ''limit'' ''0'')) = Inr c
                   \<and> - (2 ^ 63) \<le> c \<and> c < 2 ^ 63)
         \<longrightarrow> (\<exists>e. budgets_post d (Some user_id) f = Inl e)
           \<and> db_after d (budgets_post d (Some user_id) f) = d)"
proof -
  from budgets_post_outcome [OF assms, unfolded sql_integer_def]
  show ?thesis .
qed

theorem budgets_post_upsert_witness:
  "budgets_unique demo_db
   \<and> budgets_unique (budgets_posts [(Some 1, demo_budget_form), (Some 2, demo_budget_form),
        (Some 1, demo_budget_form)] demo_db)
   \<and> budgets (db_after demo_db (budgets_post demo_db (Some 1) demo_budget_form))
       = [\<lparr>b_user_id = 1, b_category = ''Coffee'', b_limit_cents = 6000\<rparr>]
   \<and> db_after demo_db (budgets_post demo_db (Some 1) bad_budget_form) = demo_db"
proof -
  have u: "budgets_unique demo_db"
    by (simp add: budgets_unique_def demo_db_def budget_key_def)
  have c: "strip (form_get demo_budget_form ''category'' ''Other'') = ''Coffee''"
    "cents_from_money_str (strip (form_get demo_budget_form ''limit'' ''0'')) = Inr 6000"
    "sql_integer 1" "sql_integer 6000"
    by (simp_all add: demo_budget_form_def eval_int sql_integer_def)
  have k: "(1, ''Coffee'') \<in> set (map budget_key (budgets demo_db))"
    by (simp add: demo_db_def budget_key_def)
  have r: "cents_from_money_str (strip (form_get bad_budget_form ''limit'' ''0''))
      = Inl ValueError"
    by (simp add: bad_budget_form_def eval_int)
  note t = budgets_post_upsert [OF u, where f = demo_budget_form
      and reqs = "[(Some 1, demo_budget_form), (Some 2, demo_budget_form),
        (Some 1, demo_budget_form)]"]
  note t' = budgets_post_upsert [OF u, where f = bad_budget_form and reqs = "[]"]
  from t have a: "budgets_unique (budgets_posts [(Some 1, demo_budget_form),
      (Some 2, demo_budget_form), (Some 1, demo_budget_form)] demo_db)"
    by (rule conjunct1)
  from t have "\<forall>user_id category c.
           user_id \<noteq> 0 \<and> (- (2 ^ 63) \<le> user_id \<and> user_id < 2 ^ 63)
           \<and> category = strip (form_get demo_budget_form ''category'' ''Other'')
           \<and> cents_from_money_str (strip (form_get demo_budget_form ''limit'' ''0'')) = Inr c
           \<and> (- (2 ^ 63) \<le> c \<and> c < 2 ^ 63)
           \<and> (user_id, category) \<in> set (map budget_key (budgets demo_db))
         \<longrightarrow> budgets (db_after demo_db (budgets_post demo_db (Some user_id) demo_budget_form))
             = map (\<lambda>b. if budget_key b = (user_id, category) then b\<lparr>b_limit_cents := c\<rparr>
                         else b) (budgets demo_db)
           \<and> length (budgets (db_after demo_db
                 (budgets_post demo_db (Some user_id) demo_budget_form)))
               = length (budgets demo_db)"
    by (rule conjunct1 [OF conjunct2])
  from this [rule_format, of 1 "''Coffee''" 6000] c k
  have "budgets (db_after demo_db (budgets_post demo_db (Some 1) demo_budget_form))
      = map (\<lambda>b. if budget_key b = (1, ''Coffee'') then b\<lparr>b_limit_cents := 6000\<rparr> else b)
          (budgets demo_db)"
    by simp
  also have "\<dots> = [\<lparr>b_user_id = 1, b_category = ''Coffee'', b_limit_cents = 6000\<rparr>]"
    by (simp add: demo_db_def budget_key_def)
  finally have b: "budgets (db_after demo_db (budgets_post demo_db (Some 1) demo_budget_form))
      = [\<lparr>b_user_id = 1, b_category = ''Coffee'', b_limit_cents = 6000\<rparr>]" .
  from t' have "\<forall>user_id.
           user_id \<noteq> 0
           \<and> \<not> (\<exists>c. cents_from_money_str (strip (form_get bad_budget_form ''limit'' ''0''))
                     = Inr c \<and> - (2 ^ 63) \<le> c \<and> c < 2 ^ 63)
         \<longrightarrow> (\<exists>e. budgets_post demo_db (Some user_id) bad_budget_form = Inl e)
           \<and> db_after demo_db (budgets_post demo_db (Some user_id) bad_budget_form) = demo_db"
    by (rule conjunct2 [OF conjunct2])
  from this [rule_format, of 1] r
  have d: "db_after demo_db (budgets_post demo_db (Some 1) bad_budget_form) = demo_db"
    by simp
  from u a b d show ?thesis by blast
qed

text \<open>The claim as it was stated fails when the submitted limit is not a number: the first
  user has a budget for Coffee, limit 4000; a POST for that pair with the limit \<^verbatim>\<open>abc\<close>
  raises \<^verbatim>\<open>ValueError\<close>, and the limit of the row is still 4000.\<close>

theorem budgets_post_counterexample:
  "(1, ''Coffee'') \<in> set (map budget_key (budgets demo_db))
   \<and> strip (form_get bad_budget_form ''category'' ''Other'') = ''Coffee''
   \<and> strip (form_get bad_budget_form ''limit'' ''0'') = ''abc''
   \<and> budgets_post demo_db (Some 1) bad_budget_form = Inl ValueError
   \<and> budgets (db_after demo_db (budgets_post demo_db (Some 1) bad_budget_form))
       = [\<lparr>b_user_id = 1, b_category = ''Coffee'', b_limit_cents = 4000\<rparr>]"
  by (simp add: bad_budget_form_def budgets_post_def with_login_def db_after_def eval_int
      demo_db_def budget_key_def)

text \<open>A limit of \<open>2 ^ 63\<close> cents is refused as well, by \<^verbatim>\<open>db.execute\<close>.\<close>

lemma budgets_post_overflow:
  "cents_from_money_str (strip (form_get big_budget_form ''limit'' ''0''))
     = Inr 9223372036854775808
   \<and> budgets_post demo_db (Some 1) big_budget_form = Inl OverflowError"
  by (simp add: big_budget_form_def budgets_post_def with_login_def eval_int bind_ints_def
      sql_integer_def)

subsection \<open>Setup\<close>

lemma upsert_pay_schedule_users:
  "map ps_user_id (pay_schedules (upsert_pay_schedule d user_id next_payday net_pay_cents))
     = (if user_id \<in> set (map ps_user_id (pay_schedules d))
        then map ps_user_id (pay_schedules d)
        else map ps_user_id (pay_schedules d) @ [user_id])"
proof -
  have "map ps_user_id (map (\<lambda>r. if ps_user_id r = user_id
            then r\<lparr>ps_next_payday := next_payday, ps_typical_net_pay_cents := net_pay_cents\<rparr>
            else r) xs) = map ps_user_id xs" for xs
    by (induction xs) simp_all
  then show ?thesis by (simp add: upsert_pay_schedule_def)
qed

lemma upsert_pay_schedule_frequency:
  assumes "\<forall>r \<in> set (pay_schedules d). ps_frequency r = ''biweekly''"
  shows "\<forall>r \<in> set (pay_schedules (upsert_pay_schedule d user_id next_payday net_pay_cents)).
           ps_frequency r = ''biweekly''"
  using assms by (auto simp add: upsert_pay_schedule_def)

lemma upsert_pay_schedule_ok:
  "schedules_ok d \<Longrightarrow> schedules_ok (upsert_pay_schedule d user_id next_payday net_pay_cents)"
  unfolding schedules_ok_def
  using upsert_pay_schedule_frequency [of d user_id next_payday net_pay_cents]
  by (simp add: upsert_pay_schedule_users)

lemma setup_post_body:
  assumes "user_id \<noteq> 0"
    and "parse_ymd (strip (form_get f ''next_payday'' '''')) = Inr parsed"
  shows "setup_post d (Some user_id) f
    = bindE (cents_from_money_str (strip (form_get f ''typical_net_pay'' '''')))
        (\<lambda>net_pay_cents.
      bindE (bind_ints [user_id, net_pay_cents]) (\<lambda>bound.
        Inr \<lparr>new_db = upsert_pay_schedule d user_id (strip (form_get f ''next_payday'' ''''))
                        net_pay_cents,
             new_session = Some user_id, flashed = [''Setup saved!''],
             answer = Redirect ''dashboard''\<rparr>))"
  using assms by (simp add: setup_post_def with_login_body Let_def)

lemma setup_post_unparsed:
  assumes "parse_ymd (strip (form_get f ''next_payday'' '''')) = Inl e"
  shows "db_after d (setup_post d session f) = d"
  using assms by (simp add: setup_post_def with_login_def db_after_def split: option.splits)

lemma setup_post_accepted:
  assumes "user_id \<noteq> 0" "sql_integer user_id"
    and "parse_ymd (strip (form_get f ''next_payday'' '''')) = Inr parsed"
    and "cents_from_money_str (strip (form_get f ''typical_net_pay'' '''')) = Inr c"
    and "sql_integer c"
  shows "setup_post d (Some user_id) f
    = Inr \<lparr>new_db = upsert_pay_schedule d user_id (strip (form_get f ''next_payday'' '''')) c,
           new_session = Some user_id, flashed = [''Setup saved!''],
           answer = Redirect ''dashboard''\<rparr>"
  using assms(2,4,5)
  by (simp add: setup_post_body [OF assms(1,3)] bindE_def bind_ints_def)

lemma setup_post_refused:
  assumes "user_id \<noteq> 0"
    and "parse_ymd (strip (form_get f ''next_payday'' '''')) = Inr parsed"
    and "\<not> (\<exists>c. cents_from_money_str (strip (form_get f ''typical_net_pay'' '''')) = Inr c
            \<and> sql_integer c)"
  shows "\<exists>e. setup_post d (Some user_id) f = Inl e"
proof (cases "cents_from_money_str (strip (form_get f ''typical_net_pay'' ''''))")
  case (Inl e)
  then show ?thesis by (simp add: setup_post_body [OF assms(1,2)] bindE_def)
next
  case (Inr c)
  with assms(3) have "\<not> sql_integer c" by simp
  with Inr show ?thesis
    by (simp add: setup_post_body [OF assms(1,2)] bindE_def bind_ints_def)
qed

lemma setup_post_after:
  "db_after d (setup_post d session f) = d
   \<or> (\<exists>user_id next_payday net_pay_cents.
        db_after d (setup_post d session f)
          = upsert_pay_schedule d user_id next_payday net_pay_cents)"
proof (cases "parse_ymd (strip (form_get f ''next_payday'' ''''))")
  case (Inl e)
  then show ?thesis by (simp add: setup_post_unparsed)
next
  case np: (Inr parsed)
  show ?thesis
  proof (cases "session = None \<or> session = Some 0")
    case True
    then show ?thesis by (auto simp add: setup_post_def with_login_def db_after_def)
  next
    case False
    then obtain user_id where u: "session = Some user_id" "user_id \<noteq> 0"
      by (cases session) auto
    show ?thesis
    proof (cases "setup_post d (Some user_id) f")
      case (Inl e)
      with u show ?thesis by (simp add: db_after_def)
    next
      case (Inr rep)
      then obtain c where "rep = \<lparr>new_db = upsert_pay_schedule d user_id
            (strip (form_get f ''next_payday'' '''')) c,
          new_session = Some user_id, flashed = [''Setup saved!''],
          answer = Redirect ''dashboard''\<rparr>"
        unfolding setup_post_body [OF u(2) np]
        by (auto simp add: bindE_def split: sum.splits)
      with Inr u show ?thesis by (auto simp add: db_after_def)
    qed
  qed
qed

lemma setup_posts_ok: "schedules_ok d \<Longrightarrow> schedules_ok (setup_posts reqs d)"
  unfolding setup_posts_def
proof (induction reqs arbitrary: d)
  case Nil
  then show ?case by simp
next
  case (Cons req reqs)
  from setup_post_after [of d "fst req" "snd req"] Cons.prems
  have "schedules_ok (db_after d (setup_post d (fst req) (snd req)))"
    by (auto simp add: upsert_pay_schedule_ok)
  then show ?case using Cons.IH by simp
qed

lemma setup_post_outcome:
  assumes "schedules_ok d"
  shows
    "schedules_ok (setup_posts reqs d)
     \<and> (\<forall>user_id next_payday parsed c.
           user_id \<noteq> 0 \<and> sql_integer user_id
           \<and> next_payday = strip (form_get f ''next_payday'' '''')
           \<and> parse_ymd next_payday = Inr parsed
           \<and> cents_from_money_str (strip (form_get f ''typical_net_pay'' '''')) = Inr c
           \<and> sql_integer c
           \<and> user_id \<in> set (map ps_user_id (pay_schedules d))
         \<longrightarrow> pay_schedules (db_after d (setup_post d (Some user_id) f))
             = map (\<lambda>r. if ps_user_id r = user_id
                         then r\<lparr>ps_next_payday := next_payday,
                                ps_typical_net_pay_cents := c\<rparr>
                         else r) (pay_schedules d))
     \<and> (\<forall>e. parse_ymd (strip (form_get f ''next_payday'' '''')) = Inl e
         \<longrightarrow> db_after d (setup_post d session f) = d)
     \<and> (\<forall>user_id parsed.
           user_id \<noteq> 0
           \<and> parse_ymd (strip (form_get f ''next_payday'' '''')) = Inr parsed
           \<and> \<not> (\<exists>c. cents_from_money_str (strip (form_get f ''typical_net_pay'' ''''))
                       = Inr c \<and> sql_integer c)
         \<longrightarrow> (\<exists>e. setup_post d (Some user_id) f = Inl e)
           \<and> db_after d (setup_post d (Some user_id) f) = d)"
proof (intro conjI allI impI)
  show "schedules_ok (setup_posts reqs d)" using assms by (rule setup_posts_ok)
next
  fix user_id next_payday parsed c
  assume a: "user_id \<noteq> 0 \<and> sql_integer user_id
      \<and> next_payday = strip (form_get f ''next_payday'' '''')
      \<and> parse_ymd next_payday = Inr parsed
      \<and> cents_from_money_str (strip (form_get f ''typical_net_pay'' '''')) = Inr c
      \<and> sql_integer c
      \<and> user_id \<in> set (map ps_user_id (pay_schedules d))"
  then have a1: "user_id \<noteq> 0" and a2: "sql_integer user_id"
    and a3: "next_payday = strip (form_get f ''next_payday'' '''')"
    and a4: "parse_ymd next_payday = Inr parsed"
    and a5: "cents_from_money_str (strip (form_get f ''typical_net_pay'' '''')) = Inr c"
    and a6: "sql_integer c"
    and a7: "user_id \<in> set (map ps_user_id (pay_schedules d))"
    by blast+
  from a4 have p: "parse_ymd (strip (form_get f ''next_payday'' '''')) = Inr parsed"
    by (simp only: a3)
  have "db_after d (setup_post d (Some user_id) f)
      = upsert_pay_schedule d user_id next_payday c"
    by (simp add: setup_post_accepted [OF a1 a2 p a5 a6] db_after_def a3)
  with a7 show "pay_schedules (db_after d (setup_post d (Some user_id) f))
      = map (\<lambda>r. if ps_user_id r = user_id
                  then r\<lparr>ps_next_payday := next_payday, ps_typical_net_pay_cents := c\<rparr>
                  else r) (pay_schedules d)"
    by (simp add: upsert_pay_schedule_def)
next
  fix e
  assume "parse_ymd (strip (form_get f ''next_payday'' '''')) = Inl e"
  then show "db_after d (setup_post d session f) = d" by (rule setup_post_unparsed)
next
  fix user_id :: int and parsed
  assume a: "user_id \<noteq> 0
      \<and> parse_ymd (strip (form_get f ''next_payday'' '''')) = Inr parsed
      \<and> \<not> (\<exists>c. cents_from_money_str (strip (form_get f ''typical_net_pay'' ''''))
                  = Inr c \<and> sql_integer c)"
  then have a1: "user_id \<noteq> 0"
    and a2: "parse_ymd (strip (form_get f ''next_payday'' '''')) = Inr parsed"
    and a3: "\<not> (\<exists>c. cents_from_money_str (strip (form_get f ''typical_net_pay'' ''''))
                  = Inr c \<and> sql_integer c)"
    by blast+
  from setup_post_refused [OF a1 a2 a3, of d]
  show e: "\<exists>e. setup_post d (Some user_id) f = Inl e" .
  then show "db_after d (setup_post d (Some user_id) f) = d"
    by (auto simp add: db_after_def)
qed

text \<open>Claim C7, as amended. After any sequence of POSTs to the setup route, run from a store
  in which every user has at most one pay schedule and every schedule is biweekly (the
  empty table is one), this is still so. A setup POST of a logged-in user (whose \<open>id\<close> is
  within 64 bits) who has a schedule, with a next payday that \<open>parse_ymd\<close> accepts and a
  net pay that \<open>cents_from_money_str\<close> accepts and that fits a signed integer of 64 bits,
  writes both into that row and adds no row. A POST whose next payday \<open>parse_ymd\<close> refuses
  leaves the store as it was; so does a POST with an accepted next payday and any other
  net pay, which raises.\<close>

theorem setup_post_upsert:
  assumes "schedules_ok d"
  shows
    "schedules_ok (setup_posts reqs d)
     \<and> (\<forall>user_id next_payday parsed c.
           user_id \<noteq> 0 \<and> (- (2 ^ 63) \<le> user_id \<and> user_id < 2 ^ 63)
           \<and> next_payday = strip (form_get f ''next_payday'' '''')
           \<and> parse_ymd next_payday = Inr parsed
           \<and> cents_from_money_str (strip (form_get f ''typical_net_pay'' '''')) = Inr c
           \<and> (- (2 ^ 63) \<le> c \<and> c < 2 ^ 63)
           \<and> user_id \<in> set (map ps_user_id (pay_schedules d))
         \<longrightarrow> pay_schedules (db_after d (setup_post d (Some user_id) f))
             = map (\<lambda>r. if ps_user_id r = user_id
                         then r\<lparr>ps_next_payday := next_payday,
                                ps_typical_net_pay_cents := c\<rparr>
                         else r) (pay_schedules d))
     \<and> (\<forall>e. parse_ymd (strip (form_get f ''next_payday'' '''')) = Inl e
         \<longrightarrow> db_after d (setup_post d session f) = d)
     \<and> (\<forall>user_id parsed.
           user_id \<noteq> 0
           \<and> parse_ymd (strip (form_get f ''next_payday'' '''')) = Inr parsed
           \<and> \<not> (\<exists>c. cents_from_money_str (strip (form_get f ''typical_net_pay'' ''''))
                       = Inr c \<and> - (2 ^ 63) \<le> c \<and> c < 2 ^ 63)
         \<longrightarrow> (\<exists>e. setup_post d (Some user_id) f = Inl e)
           \<and> db_after d (setup_post d (Some user_id) f) = d)"
proof -
  from setup_post_outcome [OF assms, unfolded sql_integer_def]
  show ?thesis .
qed

lemma demo_setup_fields:
  "strip (form_get demo_setup_form ''next_payday'' '''') = ''2024-02-12''"
  "cents_from_money_str (strip (form_get demo_setup_form ''typical_net_pay'' '''')) = Inr 120050"
  "parse_ymd ''2024-02-12'' = Inr (Date 2024 2 12)"
  "parse_ymd (strip (form_get bad_setup_form ''next_payday'' '''')) = Inl ValueError"
  "sql_integer 1" "sql_integer 120050"
  by (simp_all add: demo_setup_form_def bad_setup_form_def eval_int eval_date
      is_nonzero_digit_def two_digits_def sql_integer_def)

theorem setup_post_upsert_witness:
  "schedules_ok demo_db
   \<and> schedules_ok (setup_posts [(Some 2, demo_setup_form), (Some 1, bad_setup_form),
        (Some 2, demo_setup_form)] demo_db)
   \<and> pay_schedules (db_after demo_db (setup_post demo_db (Some 1) demo_setup_form))
       = [\<lparr>ps_user_id = 1, ps_frequency = ''biweekly'', ps_next_payday = ''2024-02-12'',
           ps_typical_net_pay_cents = 120050\<rparr>]
   \<and> db_after demo_db (setup_post demo_db (Some 1) bad_setup_form) = demo_db"
proof -
  have ok: "schedules_ok demo_db" by (simp add: schedules_ok_def demo_db_def)
  have k: "1 \<in> set (map ps_user_id (pay_schedules demo_db))" by (simp add: demo_db_def)
  note t = setup_post_upsert [OF ok, where f = demo_setup_form and session = "Some 1"
      and reqs = "[(Some 2, demo_setup_form), (Some 1, bad_setup_form),
        (Some 2, demo_setup_form)]"]
  note t' = setup_post_upsert [OF ok, where f = bad_setup_form and session = "Some 1"
      and reqs = "[]"]
  from t have a: "schedules_ok (setup_posts [(Some 2, demo_setup_form), (Some 1, bad_setup_form),
        (Some 2, demo_setup_form)] demo_db)"
    by (rule conjunct1)
  from t have "\<forall>user_id next_payday parsed c.
           user_id \<noteq> 0 \<and> (- (2 ^ 63) \<le> user_id \<and> user_id < 2 ^ 63)
           \<and> next_payday = strip (form_get demo_setup_form ''next_payday'' '''')
           \<and> parse_ymd next_payday = Inr parsed
           \<and> cents_from_money_str (strip (form_get demo_setup_form ''typical_net_pay'' ''''))
               = Inr c
           \<and> (- (2 ^ 63) \<le> c \<and> c < 2 ^ 63)
           \<and> user_id \<in> set (map ps_user_id (pay_schedules demo_db))
         \<longrightarrow> pay_schedules (db_after demo_db (setup_post demo_db (Some user_id) demo_setup_form))
             = map (\<lambda>r. if ps_user_id r = user_id
                         then r\<lparr>ps_next_payday := next_payday,
                                ps_typical_net_pay_cents := c\<rparr>
                         else r) (pay_schedules demo_db)"
    by (rule conjunct1 [OF conjunct2])
  from this [rule_format, of 1 "''2024-02-12''" "Date 2024 2 12" 120050] k
  have "pay_schedules (db_after demo_db (setup_post demo_db (Some 1) demo_setup_form))
       = map (\<lambda>r. if ps_user_id r = 1
                   then r\<lparr>ps_next_payday := ''2024-02-12'',
                          ps_typical_net_pay_cents := 120050\<rparr>
                   else r) (pay_schedules demo_db)"
    by (simp add: demo_setup_fields del: parse_ymd.simps)
  also have "\<dots> = [\<lparr>ps_user_id = 1, ps_frequency = ''biweekly'',
      ps_next_payday = ''2024-02-12'', ps_typical_net_pay_cents = 120050\<rparr>]"
    by (simp add: demo_db_def)
  finally have b: "pay_schedules (db_after demo_db (setup_post demo_db (Some 1) demo_setup_form))
       = [\<lparr>ps_user_id = 1, ps_frequency = ''biweekly'', ps_next_payday = ''2024-02-12'',
           ps_typical_net_pay_cents = 120050\<rparr>]" .
  from t' have "\<forall>e. parse_ymd (strip (form_get bad_setup_form ''next_payday'' '''')) = Inl e
         \<longrightarrow> db_after demo_db (setup_post demo_db (Some 1) bad_setup_form) = demo_db"
    by (rule conjunct1 [OF conjunct2 [OF conjunct2]])
  from this [rule_format, OF demo_setup_fields(4)]
  have c: "db_after demo_db (setup_post demo_db (Some 1) bad_setup_form) = demo_db" .
  from ok a b c show ?thesis by blast
qed

text \<open>The claim as it was stated fails when the submitted net pay is not a number: the first
  user has a schedule, the next payday \<^verbatim>\<open>2024-02-12\<close> is accepted, and the POST raises
  \<^verbatim>\<open>ValueError\<close>; the row keeps the next payday \<^verbatim>\<open>2024-01-15\<close> and the net pay 100000.\<close>

theorem setup_post_counterexample:
  "1 \<in> set (map ps_user_id (pay_schedules demo_db))
   \<and> parse_ymd (strip (form_get bad_pay_form ''next_payday'' '''')) = Inr (Date 2024 2 12)
   \<and> strip (form_get bad_pay_form ''typical_net_pay'' '''') = ''abc''
   \<and> setup_post demo_db (Some 1) bad_pay_form = Inl ValueError
   \<and> pay_schedules (db_after demo_db (setup_post demo_db (Some 1) bad_pay_form))
       = [\<lparr>ps_user_id = 1, ps_frequency = ''biweekly'', ps_next_payday = ''2024-01-15'',
           ps_typical_net_pay_cents = 100000\<rparr>]"
  by (simp add: bad_pay_form_def setup_post_def with_login_def db_after_def eval_int eval_date
      is_nonzero_digit_def two_digits_def demo_db_def)

text \<open>A net pay of \<open>2 ^ 63\<close> cents is refused as well, by \<^verbatim>\<open>db.execute\<close>.\<close>

lemma setup_post_overflow:
  "cents_from_money_str (strip (form_get big_pay_form ''typical_net_pay'' ''''))
     = Inr 9223372036854775808
   \<and> setup_post demo_db (Some 1) big_pay_form = Inl OverflowError"
  by (simp add: big_pay_form_def setup_post_def with_login_def eval_int eval_date
      is_nonzero_digit_def two_digits_def bind_ints_def sql_integer_def)

subsection \<open>Transactions of the pay period\<close>

lemma unpadded_accepted:
  "transaction_new_post demo_db (Some 1) (Date 2024 1 10) unpadded_form
     = Inr \<lparr>new_db = unpadded_db, new_session = Some 1, flashed = [''Transaction added!''],
            answer = Redirect ''transactions''\<rparr>"
  by (simp add: transaction_new_post_def with_login_def unpadded_form_def unpadded_db_def
      unpadded_row_def eval_int eval_date is_nonzero_digit_def two_digits_def bind_ints_def
      sql_integer_def)

lemma unpadded_date:
  "parse_ymd (t_occurred_on unpadded_row) = Inr (Date 2024 1 5)"
  "toordinal (Date 2024 1 1) \<le> toordinal (Date 2024 1 5)"
  "toordinal (Date 2024 1 5) \<le> toordinal (Date 2024 1 14)"
  by (simp_all add: unpadded_row_def eval_int eval_date is_nonzero_digit_def two_digits_def)

lemma unpadded_rows:
  "period_rows unpadded_db 1 (Date 2024 1 1) (Date 2024 1 14)
     = Inr [(''income'', 5000), (''expense'', 2500)]"
  by (simp add: period_rows_def demo_ymd demo_db_def unpadded_db_def unpadded_row_def
      sql_between_def sql_integer_def bindE_def)

lemma unpadded_category_rows:
  "category_rows unpadded_db 1 (Date 2024 1 1) (Date 2024 1 14) = Inr [(''Coffee'', 2500)]"
  by (simp add: category_rows_def demo_ymd demo_db_def unpadded_db_def unpadded_row_def
      sql_between_def sql_integer_def bindE_def)

lemma unpadded_remaining:
  "period_remaining unpadded_db 1 demo_schedule (Date 2024 1 1) (Date 2024 1 14)
     = Inr (5000, 2500, 102500)"
  by (simp add: period_remaining_def unpadded_rows fill_totals_def dict_get_def bindE_def
      demo_schedule_def)

lemma unpadded_schedule: "get_schedule unpadded_db 1 = Inr (Some demo_schedule)"
  by (simp add: get_schedule_def bind_ints_def sql_integer_def bindE_def unpadded_db_def
      demo_db_def demo_schedule_def)

lemma unpadded_bills:
  "bills_loop (Date 2024 1 10) (Date 2024 1 15) (active_bills unpadded_db 1) ([], 0)
     = Inr ([\<lparr>di_name = ''Phone'', di_amount = ''30.00'', di_due = ''2024-01-12''\<rparr>], 3000)"
proof -
  have "active_bills unpadded_db 1 = active_bills demo_db 1"
    by (simp add: active_bills_def unpadded_db_def)
  then show ?thesis by (simp only: demo_bills)
qed

text \<open>Claim C4 fails on the code. The form for a new transaction accepts the date
  \<^verbatim>\<open>2024-1-5\<close> (\<open>parse_ymd\<close> reads it as 5 January 2024) and stores the text as it was
  submitted. The pay period of the user is 1 to 14 January 2024, so the expense of 10.00
  lies in it; but the dashboard compares the stored text with \<^verbatim>\<open>2024-01-01\<close> and
  \<^verbatim>\<open>2024-01-14\<close>, finds it greater than the upper bound, and leaves the expense out: the
  expenses stay at 25.00 and the remaining amount at 1025.00, where the claim gives 35.00
  and 1015.00.\<close>

theorem unpadded_date_left_out:
  "transaction_new_post demo_db (Some 1) (Date 2024 1 10) unpadded_form
     = Inr \<lparr>new_db = unpadded_db, new_session = Some 1, flashed = [''Transaction added!''],
            answer = Redirect ''transactions''\<rparr>
   \<and> transactions unpadded_db = transactions demo_db @ [unpadded_row]
   \<and> t_user_id unpadded_row = 1 \<and> t_kind unpadded_row = ''expense''
   \<and> t_amount_cents unpadded_row = 1000
   \<and> parse_ymd (t_occurred_on unpadded_row) = Inr (Date 2024 1 5)
   \<and> current_pay_period demo_schedule = Inr (Date 2024 1 1, Date 2024 1 14, Date 2024 1 15)
   \<and> toordinal (Date 2024 1 1) \<le> toordinal (Date 2024 1 5)
   \<and> toordinal (Date 2024 1 5) \<le> toordinal (Date 2024 1 14)
   \<and> period_remaining demo_db 1 demo_schedule (Date 2024 1 1) (Date 2024 1 14)
       = Inr (5000, 2500, 102500)
   \<and> period_remaining unpadded_db 1 demo_schedule (Date 2024 1 1) (Date 2024 1 14)
       = Inr (5000, 2500, 102500)
   \<and> dashboard unpadded_db (Some 1) (Date 2024 1 10)
       = Inr \<lparr>new_db = unpadded_db, new_session = Some 1, flashed = [],
              answer = Render_dashboard demo_ctx\<rparr>"
proof -
  have u: "(1::int) \<noteq> 0" by simp
  have c: "dashboard_context (Date 2024 1 1, Date 2024 1 14, Date 2024 1 15)
      (ps_typical_net_pay_cents demo_schedule) (5000, 2500, 102500)
      (102500 div days_left (Date 2024 1 14) (Date 2024 1 10))
      ([\<lparr>di_name = ''Phone'', di_amount = ''30.00'', di_due = ''2024-01-12''\<rparr>], 3000)
    = Inr demo_ctx"
    by (simp add: demo_days_left demo_schedule_def demo_context)
  from u unpadded_schedule demo_period unpadded_remaining unpadded_bills
    unpadded_category_rows c
  have "dashboard unpadded_db (Some 1) (Date 2024 1 10)
       = Inr \<lparr>new_db = unpadded_db, new_session = Some 1, flashed = [],
              answer = Render_dashboard demo_ctx\<rparr>"
    by (rule dashboard_renders)
  moreover have "transactions unpadded_db = transactions demo_db @ [unpadded_row]"
    by (simp add: unpadded_db_def)
  moreover have "t_user_id unpadded_row = 1 \<and> t_kind unpadded_row = ''expense''
      \<and> t_amount_cents unpadded_row = 1000"
    by (simp add: unpadded_row_def)
  ultimately show ?thesis
    using unpadded_accepted unpadded_date demo_period demo_remaining unpadded_remaining
    by blast
qed

subsection \<open>Bills due before the next payday\<close>























end
